theory Spec2Isabelle
  imports Complex_Main "HOL-Library.AList"
begin

section \<open>Values, records and frames\<close>

text \<open>
  The loader of \<^verbatim>\<open>create_database.py\<close> moves tabular records from CSV extracts
  into an SQLite store. A cell holds a missing value (\<^verbatim>\<open>NaN\<close>, \<^verbatim>\<open>NaT\<close>, SQL
  \<^verbatim>\<open>NULL\<close>), an integer, a decimal number (rationals stand for the decimals read
  from the extract), a text, or a calendar date (\<^verbatim>\<open>datetime.date\<close>: year, month, day).
\<close>

type_synonym date = "nat \<times> nat \<times> nat"

type_synonym timestamp = "date \<times> nat"

datatype val = Null | IntV int | RealV rat | TextV string | DateV date

type_synonym row = "(string \<times> val) list"

definition cell :: "row \<Rightarrow> string \<Rightarrow> val" where
  "cell r c = (case map_of r c of Some v \<Rightarrow> v | None \<Rightarrow> Null)"

record dataframe =
  columns :: "string list"
  rows :: "row list"

text \<open>The records of a frame, column by column, as \<^verbatim>\<open>to_sql\<close> hands them to the store.\<close>

definition records :: "dataframe \<Rightarrow> row list" where
  "records df = map (\<lambda>r. map (\<lambda>c. (c, cell r c)) (columns df)) (rows df)"

datatype exn =
    KeyError string
  | EmptyDataError
  | ValueError string
  | OperationalError string
  | IntegrityError string

text \<open>
  What is found at \<^verbatim>\<open>csv_path\<close>: no file, a file on which \<^verbatim>\<open>pd.read_csv\<close> raises
  (a file of zero bytes raises \<^verbatim>\<open>EmptyDataError\<close>), or a file that reads as a frame
  (a file holding only the header line reads as a frame with no rows).
\<close>

datatype csv = Missing | Unreadable exn | Content dataframe

text \<open>Every \<^verbatim>\<open>print\<close> of the program is one message.\<close>

datatype msg =
    WarnNotFound string
  | Loading string
  | WarnDuplicates nat string
  | DuplicateValues "row list"
  | RemovedDuplicates nat string "string list"
  | RemovedFK nat string string
  | Loaded nat string
  | VerifyTitle
  | VerifyRule
  | VerifyCount string nat
  | Dropping
  | UsingExisting
  | Completed
  | ErrorMsg exn

section \<open>The frame operations the loader uses\<close>

text \<open>
  \<^verbatim>\<open>df.duplicated(subset=K)\<close> marks every row whose values on \<open>K\<close> occurred in an
  earlier row; missing values count as equal to each other. With \<^verbatim>\<open>subset=None\<close>
  all columns form the key. A key column that the frame lacks raises \<^verbatim>\<open>KeyError\<close>.
\<close>

fun duplicated_from :: "'k list \<Rightarrow> 'k list \<Rightarrow> bool list" where
  "duplicated_from seen [] = []"
| "duplicated_from seen (k # ks) = (k \<in> set seen) # duplicated_from (k # seen) ks"

definition row_key :: "string list \<Rightarrow> row \<Rightarrow> val list" where
  "row_key K r = map (cell r) K"

definition duplicated :: "string list option \<Rightarrow> dataframe \<Rightarrow> exn + bool list" where
  "duplicated pk_subset df =
     (let K = (case pk_subset of None \<Rightarrow> columns df | Some K \<Rightarrow> K)
      in if set K \<subseteq> set (columns df)
         then Inr (duplicated_from [] (map (row_key K) (rows df)))
         else Inl (KeyError ''subset''))"

text \<open>\<^verbatim>\<open>df[flags]\<close>: the rows whose flag is set, in order.\<close>

definition bool_index :: "bool list \<Rightarrow> 'a list \<Rightarrow> 'a list" where
  "bool_index bs xs = map snd (filter fst (zip bs xs))"

definition drop_duplicates :: "string list \<Rightarrow> dataframe \<Rightarrow> exn + dataframe" where
  "drop_duplicates K df =
     (case duplicated (Some K) df of
        Inl e \<Rightarrow> Inl e
      | Inr d \<Rightarrow> Inr (df\<lparr>rows := bool_index (map Not d) (rows df)\<rparr>))"

text \<open>
  \<^verbatim>\<open>pd.to_datetime\<close> belongs to pandas, not to the repository: it is a parameter,
  a function from a column of values to a column of timestamps (\<open>None\<close> is \<^verbatim>\<open>NaT\<close>)
  that may raise. \<^verbatim>\<open>.dt.date\<close> keeps the calendar date of each timestamp.
\<close>

type_synonym to_datetime = "val list \<Rightarrow> exn + timestamp option list"

fun dt_date :: "timestamp option \<Rightarrow> val" where
  "dt_date None = Null"
| "dt_date (Some (d, t)) = DateV d"

text \<open>\<^verbatim>\<open>df[col] = series\<close> for a column the frame has.\<close>

definition set_column :: "string \<Rightarrow> val list \<Rightarrow> dataframe \<Rightarrow> dataframe" where
  "set_column c vs df = df\<lparr>rows := map2 (\<lambda>r v. AList.update c v r) (rows df) vs\<rparr>"

definition column :: "dataframe \<Rightarrow> string \<Rightarrow> val list" where
  "column df c = map (\<lambda>r. cell r c) (rows df)"

text \<open>\<^verbatim>\<open>df[df[column].isin(allowed)]\<close>\<close>

definition isin_filter :: "string \<Rightarrow> val list \<Rightarrow> dataframe \<Rightarrow> dataframe" where
  "isin_filter c allowed df = df\<lparr>rows := filter (\<lambda>r. cell r c \<in> set allowed) (rows df)\<rparr>"

section \<open>The store\<close>

text \<open>
  The SQLite file is a list of tables in creation order (the order of
  \<^verbatim>\<open>sqlite_master\<close>), each with its declaration and its rows. A stored row holds the
  values the insert supplied; a column the insert left out reads as its declared default,
  or as \<^verbatim>\<open>NULL\<close>. Values are stored as supplied (the conversions of column affinity
  are left out), \<^verbatim>\<open>created_at\<close> and \<^verbatim>\<open>updated_at\<close> are declared without the clock
  default, and indexes, which do not change what a table holds, are left out.
  A load addresses the table of the name it is called with, and the verifier counts the
  rows of the table of each name it enumerates. The drop block of \<^verbatim>\<open>main\<close> builds
  its statements from the names it reads in the catalogue, which are whatever the store
  holds; how SQLite reads such a name in a drop statement is a parameter (see
  \<open>drop_table\<close>).
\<close>

datatype chk =
    Between string int int
  | AtLeast string int
  | Above string int
  | OneOf string "string list"
  | ColAtLeast string string
  | NullOrColAtLeast string string

record table_def =
  cols :: "(string \<times> bool \<times> val option) list"
  pkey :: "string list"
  fkeys :: "(string \<times> string \<times> string) list"
  checks :: "chk list"

record table =
  tdef :: table_def
  trows :: "row list"

type_synonym database = "(string \<times> table) list"

definition stored :: "table_def \<Rightarrow> row \<Rightarrow> string \<Rightarrow> val" where
  "stored d r c =
     (case map_of r c of
        Some v \<Rightarrow> v
      | None \<Rightarrow> (case map_of (cols d) c of Some (nn, Some v) \<Rightarrow> v | _ \<Rightarrow> Null))"

subsection \<open>Comparison of values in a check constraint\<close>

text \<open>
  SQL comparison is three-valued: a comparison with \<^verbatim>\<open>NULL\<close> is \<^verbatim>\<open>NULL\<close> (here
  \<open>None\<close>); numbers compare by value, every number is below every text, and texts
  compare byte by byte. A date is stored as its ISO text \<^verbatim>\<open>YYYY-MM-DD\<close>.
\<close>

fun str_le :: "string \<Rightarrow> string \<Rightarrow> bool" where
  "str_le [] t = True"
| "str_le (a # s) [] = False"
| "str_le (a # s) (b # t) = (if a = b then str_le s t else (of_char a :: nat) < of_char b)"

definition digit :: "nat \<Rightarrow> char" where
  "digit n = ''0123456789'' ! (n mod 10)"

fun isoformat :: "date \<Rightarrow> string" where
  "isoformat (y, m, d) =
     [digit (y div 1000), digit (y div 100), digit (y div 10), digit y, CHR ''-'',
      digit (m div 10), digit m, CHR ''-'', digit (d div 10), digit d]"

fun num_of :: "val \<Rightarrow> rat option" where
  "num_of (IntV i) = Some (of_int i)"
| "num_of (RealV q) = Some q"
| "num_of v = None"

fun text_of :: "val \<Rightarrow> string" where
  "text_of (TextV s) = s"
| "text_of (DateV d) = isoformat d"
| "text_of v = []"

definition sql_le :: "val \<Rightarrow> val \<Rightarrow> bool option" where
  "sql_le a b =
     (if a = Null \<or> b = Null then None
      else (case (num_of a, num_of b) of
              (Some x, Some y) \<Rightarrow> Some (x \<le> y)
            | (Some x, None) \<Rightarrow> Some True
            | (None, Some y) \<Rightarrow> Some False
            | (None, None) \<Rightarrow> Some (str_le (text_of a) (text_of b))))"

definition sql_and :: "bool option \<Rightarrow> bool option \<Rightarrow> bool option" where
  "sql_and p q =
     (if p = Some False \<or> q = Some False then Some False
      else if p = None \<or> q = None then None else Some True)"

fun eval_chk :: "(string \<Rightarrow> val) \<Rightarrow> chk \<Rightarrow> bool option" where
  "eval_chk v (Between c lo hi) = sql_and (sql_le (IntV lo) (v c)) (sql_le (v c) (IntV hi))"
| "eval_chk v (AtLeast c lo) = sql_le (IntV lo) (v c)"
| "eval_chk v (Above c lo) = map_option Not (sql_le (v c) (IntV lo))"
| "eval_chk v (OneOf c xs) =
     (if v c = Null then None
      else Some (num_of (v c) = None \<and> text_of (v c) \<in> set xs))"
| "eval_chk v (ColAtLeast c c') = sql_le (v c') (v c)"
| "eval_chk v (NullOrColAtLeast c c') =
     (if v c = Null then Some True else sql_le (v c') (v c))"

subsection \<open>The schema script of \<^verbatim>\<open>create_tables\<close>\<close>

definition stamps :: "(string \<times> bool \<times> val option) list" where
  "stamps = [(''created_at'', False, None), (''updated_at'', False, None)]"

definition vendor_def :: table_def where
  "vendor_def = \<lparr>
     cols = [(''vendor_id'', False, None), (''supplier_name'', True, None),
             (''defect_rate'', False, None), (''lead_time_days'', False, None),
             (''quality_score'', False, None)] @ stamps,
     pkey = [''vendor_id''],
     fkeys = [],
     checks = [Between ''defect_rate'' 0 1, AtLeast ''lead_time_days'' 0,
               Between ''quality_score'' 0 5]\<rparr>"

definition warehouse_def :: table_def where
  "warehouse_def = \<lparr>
     cols = [(''warehouse_id'', False, None), (''location'', True, None)] @ stamps,
     pkey = [''warehouse_id''],
     fkeys = [],
     checks = []\<rparr>"

definition product_def :: table_def where
  "product_def = \<lparr>
     cols = [(''sku_id'', False, None), (''product_type'', True, None)] @ stamps,
     pkey = [''sku_id''],
     fkeys = [],
     checks = []\<rparr>"

definition purchase_order_def :: table_def where
  "purchase_order_def = \<lparr>
     cols = [(''po_id'', False, None), (''sku_id'', True, None), (''vendor_id'', True, None),
             (''po_date'', True, None), (''po_qty'', True, None),
             (''promised_delivery_date'', True, None), (''actual_receipt_qty'', False, None),
             (''inspection_results'', False, None), (''manufacturing_costs'', False, None)]
            @ stamps,
     pkey = [''po_id''],
     fkeys = [(''sku_id'', ''product'', ''sku_id''), (''vendor_id'', ''vendor'', ''vendor_id'')],
     checks = [Above ''po_qty'' 0, AtLeast ''actual_receipt_qty'' 0,
               OneOf ''inspection_results'' [''pass'', ''fail'', ''pending''],
               AtLeast ''manufacturing_costs'' 0,
               ColAtLeast ''promised_delivery_date'' ''po_date'']\<rparr>"

definition inventory_def :: table_def where
  "inventory_def = \<lparr>
     cols = [(''warehouse_id'', True, None), (''sku_id'', True, None),
             (''stock_available'', True, Some (IntV 0)), (''on_hand_qty'', True, Some (IntV 0)),
             (''in_transit_qty'', True, Some (IntV 0)), (''reorder_point'', True, Some (IntV 0)),
             (''safety_stock'', True, Some (IntV 0))] @ stamps,
     pkey = [''warehouse_id'', ''sku_id''],
     fkeys = [(''warehouse_id'', ''warehouse'', ''warehouse_id''),
              (''sku_id'', ''product'', ''sku_id'')],
     checks = [AtLeast ''stock_available'' 0, AtLeast ''on_hand_qty'' 0,
               AtLeast ''in_transit_qty'' 0, AtLeast ''reorder_point'' 0,
               AtLeast ''safety_stock'' 0]\<rparr>"

definition shipment_def :: table_def where
  "shipment_def = \<lparr>
     cols = [(''shipment_id'', False, None), (''order_id'', True, None),
             (''origin_lat'', False, None), (''origin_lng'', False, None),
             (''destination_lat'', False, None), (''destination_lng'', False, None),
             (''status'', True, None), (''event_timestamp'', True, None),
             (''estimated_delivery_date'', False, None), (''actual_delivery_date'', False, None),
             (''delay_hours'', False, Some (IntV 0)), (''shipping_carrier'', True, None),
             (''shipping_time_days'', False, None), (''shipping_cost'', False, None)] @ stamps,
     pkey = [''shipment_id''],
     fkeys = [(''order_id'', ''purchase_order'', ''po_id'')],
     checks = [Between ''origin_lat'' (- 90) 90, Between ''origin_lng'' (- 180) 180,
               Between ''destination_lat'' (- 90) 90, Between ''destination_lng'' (- 180) 180,
               OneOf ''status'' [''pending'', ''in_transit'', ''delivered'', ''delayed'',
                                 ''cancelled''],
               AtLeast ''delay_hours'' 0, AtLeast ''shipping_time_days'' 0,
               AtLeast ''shipping_cost'' 0,
               NullOrColAtLeast ''actual_delivery_date'' ''event_timestamp'']\<rparr>"

definition demand_def :: table_def where
  "demand_def = \<lparr>
     cols = [(''date'', True, None), (''sku_id'', True, None), (''price'', False, None),
             (''discount_percent'', False, None), (''competitor_price'', False, None),
             (''web_traffic'', False, None), (''units_sold'', False, None)] @ stamps,
     pkey = [''date'', ''sku_id''],
     fkeys = [(''sku_id'', ''product'', ''sku_id'')],
     checks = [AtLeast ''price'' 0, Between ''discount_percent'' 0 100,
               AtLeast ''competitor_price'' 0, AtLeast ''web_traffic'' 0,
               AtLeast ''units_sold'' 0]\<rparr>"

definition schema :: "(string \<times> table_def) list" where
  "schema = [(''vendor'', vendor_def), (''warehouse'', warehouse_def),
             (''product'', product_def), (''purchase_order'', purchase_order_def),
             (''inventory'', inventory_def), (''shipment'', shipment_def),
             (''demand'', demand_def)]"

subsection \<open>Statements\<close>

text \<open>\<^verbatim>\<open>CREATE TABLE IF NOT EXISTS\<close>\<close>

definition create_table :: "string \<Rightarrow> table_def \<Rightarrow> database \<Rightarrow> database" where
  "create_table n d db =
     (case map_of db n of
        None \<Rightarrow> db @ [(n, \<lparr>tdef = d, trows = []\<rparr>)]
      | Some t \<Rightarrow> db)"

text \<open>
  \<^verbatim>\<open>SELECT name FROM sqlite_master WHERE type='table' AND name NOT LIKE 'sqlite_%'\<close>.
  In a \<^verbatim>\<open>LIKE\<close> pattern \<^verbatim>\<open>_\<close> stands for any one character and \<^verbatim>\<open>%\<close> for any
  sequence, and ASCII letters match without regard to case.
\<close>

fun like_sqlite :: "string \<Rightarrow> bool" where
  "like_sqlite (a # b # c # d # e # f # g # n) =
     (a \<in> {CHR ''s'', CHR ''S''} \<and> b \<in> {CHR ''q'', CHR ''Q''} \<and> c \<in> {CHR ''l'', CHR ''L''} \<and>
      d \<in> {CHR ''i'', CHR ''I''} \<and> e \<in> {CHR ''t'', CHR ''T''} \<and> f \<in> {CHR ''e'', CHR ''E''})"
| "like_sqlite n = False"

definition user_tables :: "database \<Rightarrow> string list" where
  "user_tables db = filter (\<lambda>n. \<not> like_sqlite n) (map fst db)"

text \<open>
  Every foreign key of the schema is declared \<^verbatim>\<open>ON DELETE CASCADE\<close>: with enforcement
  on, the rows of a child table that refer to a deleted row go with it, and so on down.
  The first argument bounds the depth of the descent by the number of tables.
\<close>

definition children :: "database \<Rightarrow> string \<Rightarrow> (string \<times> string \<times> string) list" where
  "children db p =
     concat (map (\<lambda>(n, t). map (\<lambda>(c, pt, pc). (n, c, pc))
                               (filter (\<lambda>(c, pt, pc). pt = p) (fkeys (tdef t)))) db)"

fun cascade :: "nat \<Rightarrow> table_def \<Rightarrow> row list \<Rightarrow> (string \<times> string \<times> string) list
                  \<Rightarrow> database \<Rightarrow> database" where
  "cascade 0 pd gone chs db = db"
| "cascade (Suc n) pd gone [] db = db"
| "cascade (Suc n) pd gone ((ch, c, pc) # chs) db =
     cascade (Suc n) pd gone chs
       (case map_of db ch of
          None \<Rightarrow> db
        | Some t \<Rightarrow>
            let keys = filter (\<lambda>v. v \<noteq> Null) (map (\<lambda>r. stored pd r pc) gone);
                out = filter (\<lambda>r. stored (tdef t) r c \<in> set keys) (trows t);
                kept = filter (\<lambda>r. stored (tdef t) r c \<notin> set keys) (trows t);
                db1 = AList.update ch (t\<lparr>trows := kept\<rparr>) db
            in cascade n (tdef t) out (children db1 ch) db1)"

text \<open>\<^verbatim>\<open>DELETE FROM t\<close> on a connection whose enforcement flag is \<open>fk\<close>.\<close>

definition delete_from :: "bool \<Rightarrow> string \<Rightarrow> database \<Rightarrow> exn + database" where
  "delete_from fk t db =
     (case map_of db t of
        None \<Rightarrow> Inl (OperationalError ''no such table'')
      | Some tb \<Rightarrow>
          let db1 = AList.update t (tb\<lparr>trows := []\<rparr>) db
          in Inr (if fk then cascade (length db) (tdef tb) (trows tb) (children db1 t) db1
                  else db1))"

text \<open>
  \<^verbatim>\<open>DROP TABLE IF EXISTS {table}\<close>: the name is put into the statement as it is,
  without quotes. What SQLite makes of the text is not the repository's: it is a
  parameter. A plain identifier names the table of that name; a text such as
  \<^verbatim>\<open>my table\<close> or \<^verbatim>\<open>order\<close> does not parse as a name and the statement raises; a
  qualified text such as \<^verbatim>\<open>aux.t\<close> names a table of another schema, and none of
  this store. For a table that is named, with enforcement on, the rows are deleted first,
  which runs the cascade.
\<close>

datatype reading = Rejected | Names string | NamesNothing

type_synonym name_reader = "string \<Rightarrow> reading"

definition drop_table :: "name_reader \<Rightarrow> bool \<Rightarrow> string \<Rightarrow> database \<Rightarrow> exn + database" where
  "drop_table reads fk t db =
     (case reads t of
        Rejected \<Rightarrow> Inl (OperationalError ''syntax error'')
      | NamesNothing \<Rightarrow> Inr db
      | Names n \<Rightarrow>
          Inr (AList.delete n (case delete_from fk n db of Inl e \<Rightarrow> db | Inr db1 \<Rightarrow> db1)))"

text \<open>
  One \<^verbatim>\<open>INSERT\<close>. A primary key that holds \<^verbatim>\<open>NULL\<close> conflicts with no other row.
  With enforcement on, a non-\<^verbatim>\<open>NULL\<close> foreign key must name a row of the parent table.
\<close>

definition pk_conflict :: "table_def \<Rightarrow> row list \<Rightarrow> row \<Rightarrow> bool" where
  "pk_conflict d rs r =
     (let k = map (stored d r) (pkey d)
      in pkey d \<noteq> [] \<and> Null \<notin> set k \<and> k \<in> set (map (\<lambda>r'. map (stored d r') (pkey d)) rs))"

definition fk_ok :: "database \<Rightarrow> table_def \<Rightarrow> row \<Rightarrow> bool" where
  "fk_ok db d r =
     (\<forall>(c, pt, pc) \<in> set (fkeys d).
        stored d r c = Null \<or>
        (case map_of db pt of
           None \<Rightarrow> False
         | Some p \<Rightarrow> stored d r c \<in> set (map (\<lambda>r'. stored (tdef p) r' pc) (trows p))))"

definition insert_row :: "bool \<Rightarrow> string \<Rightarrow> row \<Rightarrow> database \<Rightarrow> exn + database" where
  "insert_row fk t r db =
     (case map_of db t of
        None \<Rightarrow> Inl (OperationalError ''no such table'')
      | Some tb \<Rightarrow>
          let d = tdef tb
          in if fk \<and> (\<exists>(c, pt, pc) \<in> set (fkeys d). map_of db pt = None)
             then Inl (OperationalError ''no such table'')
             else if \<exists>(c, nn, dv) \<in> set (cols d). nn \<and> stored d r c = Null
             then Inl (IntegrityError ''NOT NULL constraint failed'')
             else if \<exists>k \<in> set (checks d). eval_chk (stored d r) k = Some False
             then Inl (IntegrityError ''CHECK constraint failed'')
             else if pk_conflict d (trows tb) r
             then Inl (IntegrityError ''UNIQUE constraint failed'')
             else if fk \<and> \<not> fk_ok db d r
             then Inl (IntegrityError ''FOREIGN KEY constraint failed'')
             else Inr (AList.update t (tb\<lparr>trows := trows tb @ [r]\<rparr>) db))"

fun insert_rows :: "bool \<Rightarrow> string \<Rightarrow> row list \<Rightarrow> database \<Rightarrow> exn + database" where
  "insert_rows fk t [] db = Inr db"
| "insert_rows fk t (r # rs) db =
     (case insert_row fk t r db of
        Inl e \<Rightarrow> Inl e
      | Inr db1 \<Rightarrow> insert_rows fk t rs db1)"

text \<open>
  \<^verbatim>\<open>df.to_sql(t, conn, if_exists='append', index=False)\<close>: a missing table is created
  from the frame's columns, without constraints; a frame with no rows inserts nothing; a
  column the table lacks is an error; the rows go in within one transaction, so that a
  failing row leaves none of them behind (the result is the error alone).
\<close>

definition to_sql :: "dataframe \<Rightarrow> string \<Rightarrow> bool \<Rightarrow> database \<Rightarrow> exn + database" where
  "to_sql df t fk db =
     (case map_of db t of
        None \<Rightarrow>
          Inr (db @ [(t, \<lparr>tdef = \<lparr>cols = map (\<lambda>c. (c, False, None)) (columns df), pkey = [],
                                   fkeys = [], checks = []\<rparr>,
                          trows = records df\<rparr>)])
      | Some tb \<Rightarrow>
          if rows df = [] then Inr db
          else if \<not> set (columns df) \<subseteq> fst ` set (cols (tdef tb))
          then Inl (OperationalError ''no such column'')
          else insert_rows fk t (records df) db)"

text \<open>
  A reference query is what it returns on the store: the first column of its result
  rows, or an error. The query of \<^verbatim>\<open>main\<close> selects one column of one table.
\<close>

type_synonym query = "database \<Rightarrow> exn + val list"

definition select_column :: "string \<Rightarrow> string \<Rightarrow> query" where
  "select_column c t db =
     (case map_of db t of
        None \<Rightarrow> Inl (OperationalError ''no such table'')
      | Some tb \<Rightarrow>
          if c \<in> fst ` set (cols (tdef tb))
          then Inr (map (\<lambda>r. stored (tdef tb) r c) (trows tb))
          else Inl (OperationalError ''no such column''))"

section \<open>\<^verbatim>\<open>SupplyChainDB\<close>\<close>

text \<open>
  The state of a run: the store file, every connection that \<^verbatim>\<open>sqlite3.connect\<close> has
  handed out (a handle is its position in the list), the attribute \<^verbatim>\<open>self.conn\<close>, and
  what has been printed. A connection is closed by \<^verbatim>\<open>close()\<close> only: the \<^verbatim>\<open>with\<close>
  block of an \<^verbatim>\<open>sqlite3\<close> connection commits or rolls back on exit and leaves
  the connection open. Opening the store file is taken to succeed.
\<close>

record connection =
  is_open :: bool
  foreign_keys :: bool

record state =
  db_file :: database
  handles :: "connection list"
  self_conn :: "nat option"
  stdout :: "msg list"

definition say :: "msg list \<Rightarrow> state \<Rightarrow> state" where
  "say ms s = s\<lparr>stdout := stdout s @ ms\<rparr>"

definition PRIMARY_KEYS :: "(string \<times> string list) list" where
  "PRIMARY_KEYS =
     [(''vendor'', [''vendor_id'']),
      (''product'', [''sku_id'']),
      (''warehouse'', [''warehouse_id'']),
      (''purchase_order'', [''po_id'']),
      (''shipment'', [''shipment_id'']),
      (''inventory'', [''warehouse_id'', ''sku_id'']),
      (''demand'', [''date'', ''sku_id''])]"

definition pragma_foreign_keys :: "nat \<Rightarrow> bool \<Rightarrow> state \<Rightarrow> state" where
  "pragma_foreign_keys h b s =
     s\<lparr>handles := (handles s)[h := (handles s ! h)\<lparr>foreign_keys := b\<rparr>]\<rparr>"

text \<open>A new SQLite connection starts with enforcement off; \<^verbatim>\<open>connect\<close> turns it on.\<close>

definition connect :: "state \<Rightarrow> nat \<times> state" where
  "connect s =
     (let h = length (handles s);
          s1 = s\<lparr>handles := handles s @ [\<lparr>is_open = True, foreign_keys = False\<rparr>],
                 self_conn := Some h\<rparr>
      in (h, pragma_foreign_keys h True s1))"

definition close :: "state \<Rightarrow> state" where
  "close s =
     (case self_conn s of
        None \<Rightarrow> s
      | Some h \<Rightarrow> s\<lparr>handles := (handles s)[h := (handles s ! h)\<lparr>is_open := False\<rparr>]\<rparr>)"

definition create_tables :: "state \<Rightarrow> state" where
  "create_tables s =
     (let (h, s1) = connect s;
          s2 = pragma_foreign_keys h True s1
      in s2\<lparr>db_file := fold (\<lambda>(n, d). create_table n d) schema (db_file s2)\<rparr>)"

subsection \<open>\<^verbatim>\<open>load_data_from_csv\<close>\<close>

text \<open>Lines 192 to 203: the duplicate report and the removal of duplicates.\<close>

definition dedup_phase :: "string \<Rightarrow> dataframe \<Rightarrow> msg list \<times> (exn + dataframe)" where
  "dedup_phase table_name df =
     (let pk_subset = map_of PRIMARY_KEYS table_name
      in case duplicated pk_subset df of
           Inl e \<Rightarrow> ([], Inl e)
         | Inr duplicates \<Rightarrow>
             let report =
                   (if True \<in> set duplicates
                    then [WarnDuplicates (length (filter id duplicates)) table_name,
                          DuplicateValues (take 5 (bool_index duplicates (rows df)))]
                    else [])
             in (case pk_subset of
                   None \<Rightarrow> (report, Inr df)
                 | Some K \<Rightarrow>
                     if K = [] then (report, Inr df)
                     else (case drop_duplicates K df of
                             Inl e \<Rightarrow> (report, Inl e)
                           | Inr df' \<Rightarrow>
                               let dropped = length (rows df) - length (rows df')
                               in (report @
                                   (if dropped \<noteq> 0
                                    then [RemovedDuplicates dropped table_name K] else []),
                                   Inr df'))))"

text \<open>Lines 206 to 209: the conversion of the date columns the frame has.\<close>

fun convert_dates :: "to_datetime \<Rightarrow> string list \<Rightarrow> dataframe \<Rightarrow> exn + dataframe" where
  "convert_dates to_dt [] df = Inr df"
| "convert_dates to_dt (col # date_columns) df =
     (if col \<in> set (columns df)
      then (case to_dt (column df col) of
              Inl e \<Rightarrow> Inl e
            | Inr ts \<Rightarrow> convert_dates to_dt date_columns (set_column col (map dt_date ts) df))
      else convert_dates to_dt date_columns df)"

text \<open>Lines 213 to 222: the foreign-key filters, in the order of the dictionary.\<close>

fun fk_filter :: "string \<Rightarrow> (string \<times> query) list \<Rightarrow> database \<Rightarrow> dataframe
                    \<Rightarrow> msg list \<times> (exn + dataframe)" where
  "fk_filter table_name [] db df = ([], Inr df)"
| "fk_filter table_name ((col, q) # fk_filters) db df =
     (if col \<notin> set (columns df) then fk_filter table_name fk_filters db df
      else (case q db of
              Inl e \<Rightarrow> ([], Inl e)
            | Inr allowed \<Rightarrow>
                let df' = isin_filter col allowed df;
                    dropped = length (rows df) - length (rows df');
                    (ms, r) = fk_filter table_name fk_filters db df'
                in ((if dropped \<noteq> 0 then [RemovedFK dropped table_name col] else []) @ ms,
                    r)))"

text \<open>
  Lines 223 to 231: the delete, committed at once, then the insert. When the insert
  raises, the \<^verbatim>\<open>with\<close> block rolls back what is pending, which is nothing of the
  delete.
\<close>

definition replace_rows :: "bool \<Rightarrow> string \<Rightarrow> dataframe \<Rightarrow> state \<Rightarrow> (exn + unit) \<times> state" where
  "replace_rows fk table_name df s =
     (case delete_from fk table_name (db_file s) of
        Inl e \<Rightarrow> (Inl e, s)
      | Inr db1 \<Rightarrow>
          (case to_sql df table_name fk db1 of
             Inl e \<Rightarrow> (Inl e, s\<lparr>db_file := db1\<rparr>)
           | Inr db2 \<Rightarrow>
               (Inr (), say [Loaded (length (rows df)) table_name] (s\<lparr>db_file := db2\<rparr>))))"

definition load_data_from_csv ::
    "to_datetime \<Rightarrow> string \<Rightarrow> csv \<Rightarrow> string list \<Rightarrow> (string \<times> query) list \<Rightarrow> state
       \<Rightarrow> (exn + unit) \<times> state" where
  "load_data_from_csv to_dt table_name csv_path date_columns fk_filters s =
     (case csv_path of
        Missing \<Rightarrow> (Inr (), say [WarnNotFound table_name] s)
      | Unreadable e \<Rightarrow> (Inl e, say [Loading table_name] s)
      | Content df \<Rightarrow>
          let (report, r1) = dedup_phase table_name df;
              s1 = say (Loading table_name # report) s
          in (case r1 of
                Inl e \<Rightarrow> (Inl e, s1)
              | Inr df1 \<Rightarrow>
                  (case convert_dates to_dt date_columns df1 of
                     Inl e \<Rightarrow> (Inl e, s1)
                   | Inr df2 \<Rightarrow>
                       let (h, s2) = connect s1;
                           fk = foreign_keys (handles s2 ! h);
                           (removed, r3) = fk_filter table_name fk_filters (db_file s2) df2;
                           s3 = say removed s2
                       in (case r3 of
                             Inl e \<Rightarrow> (Inl e, s3)
                           | Inr df3 \<Rightarrow> replace_rows fk table_name df3 s3))))"

subsection \<open>\<^verbatim>\<open>verify_tables\<close>\<close>

fun insert_name :: "string \<Rightarrow> string list \<Rightarrow> string list" where
  "insert_name n [] = [n]"
| "insert_name n (m # ms) = (if str_le n m then n # m # ms else m # insert_name n ms)"

definition count_rows :: "database \<Rightarrow> string \<Rightarrow> nat" where
  "count_rows db n = (case map_of db n of None \<Rightarrow> 0 | Some t \<Rightarrow> length (trows t))"

definition verify_tables :: "state \<Rightarrow> state" where
  "verify_tables s =
     (let (h, s1) = connect s;
          tables = foldr insert_name (user_tables (db_file s1)) []
      in say ([VerifyTitle, VerifyRule] @
              map (\<lambda>n. VerifyCount n (count_rows (db_file s1) n)) tables) s1)"

subsection \<open>\<^verbatim>\<open>main\<close>\<close>

text \<open>
  Lines 262 to 281: with enforcement off, the enumerated tables are dropped one by one.
  A statement of the schema language is committed as it runs, so that when a drop raises
  the earlier drops stay; the later ones, the commit and the pragma that turns
  enforcement on again are not reached.
\<close>

fun drop_each :: "name_reader \<Rightarrow> bool \<Rightarrow> string list \<Rightarrow> database
                    \<Rightarrow> (exn + unit) \<times> database" where
  "drop_each reads fk [] db = (Inr (), db)"
| "drop_each reads fk (t # tables) db =
     (case drop_table reads fk t db of
        Inl e \<Rightarrow> (Inl e, db)
      | Inr db1 \<Rightarrow> drop_each reads fk tables db1)"

definition drop_all_tables :: "name_reader \<Rightarrow> state \<Rightarrow> (exn + unit) \<times> state" where
  "drop_all_tables reads s =
     (let (h, s1) = connect (say [Dropping] s);
          s2 = pragma_foreign_keys h False s1;
          tables = user_tables (db_file s2);
          (r, db1) = drop_each reads (foreign_keys (handles s2 ! h)) tables (db_file s2);
          s3 = s2\<lparr>db_file := db1\<rparr>
      in (case r of
            Inl e \<Rightarrow> (Inl e, s3)
          | Inr u \<Rightarrow> (Inr (), pragma_foreign_keys h True s3)))"

text \<open>Lines 262 to 284: the drop block, then \<^verbatim>\<open>create_tables\<close>.\<close>

definition recreate_schema :: "name_reader \<Rightarrow> state \<Rightarrow> (exn + unit) \<times> state" where
  "recreate_schema reads s =
     (case drop_all_tables reads s of
        (Inl e, s1) \<Rightarrow> (Inl e, s1)
      | (Inr u, s1) \<Rightarrow> (Inr (), create_tables s1))"

text \<open>
  Lines 293 to 305: the seven loads, each with its extract, its date columns and its
  filters; the extracts are given by file name.
\<close>

definition loads :: "(string \<times> string \<times> string list \<times> (string \<times> query) list) list" where
  "loads =
     [(''product'', ''products_data.csv'', [], []),
      (''warehouse'', ''warehouse_data.csv'', [], []),
      (''vendor'', ''vendor_data.csv'', [], []),
      (''purchase_order'', ''purchase_order_data.csv'',
         [''po_date'', ''promised_delivery_date''], []),
      (''inventory'', ''inventory_data.csv'', [], []),
      (''shipment'', ''shipment_data.csv'',
         [''event_timestamp'', ''estimated_delivery_date'', ''actual_delivery_date''],
         [(''order_id'', select_column ''po_id'' ''purchase_order'')]),
      (''demand'', ''demand_data.csv'', [''date''], [])]"

fun load_each :: "to_datetime \<Rightarrow> (string \<Rightarrow> csv)
                    \<Rightarrow> (string \<times> string \<times> string list \<times> (string \<times> query) list) list
                    \<Rightarrow> state \<Rightarrow> (exn + unit) \<times> state" where
  "load_each to_dt data_dir [] s = (Inr (), s)"
| "load_each to_dt data_dir ((table_name, file, date_columns, fk_filters) # rest) s =
     (case load_data_from_csv to_dt table_name (data_dir file) date_columns fk_filters s of
        (Inl e, s1) \<Rightarrow> (Inl e, s1)
      | (Inr u, s1) \<Rightarrow> load_each to_dt data_dir rest s1)"

definition main :: "to_datetime \<Rightarrow> name_reader \<Rightarrow> (string \<Rightarrow> csv) \<Rightarrow> bool \<Rightarrow> database
                     \<Rightarrow> state" where
  "main to_dt reads data_dir recreate_tables db0 =
     (let s0 = \<lparr>db_file = db0, handles = [], self_conn = None, stdout = []\<rparr>;
          (r1, s1) = (if recreate_tables then recreate_schema reads s0
                      else (Inr (), create_tables (say [UsingExisting] s0)));
          s2 = (case r1 of
                  Inl e \<Rightarrow> say [ErrorMsg e] s1
                | Inr u \<Rightarrow>
                    (case load_each to_dt data_dir loads s1 of
                       (Inl e, s) \<Rightarrow> say [ErrorMsg e] s
                     | (Inr u, s) \<Rightarrow> say [Completed] (verify_tables s)))
      in close s2)"

section \<open>Reference definitions\<close>

text \<open>The rows a table holds, if the table exists.\<close>

definition table_rows :: "database \<Rightarrow> string \<Rightarrow> row list option" where
  "table_rows db t = map_option trows (map_of db t)"

text \<open>
  Keep-first deduplication in the words of the specification: the row at position \<open>i\<close>
  is retained exactly when no earlier row has the same key.
\<close>

definition first_occurrences :: "('a \<Rightarrow> 'k) \<Rightarrow> 'a list \<Rightarrow> 'a list" where
  "first_occurrences key xs =
     map (\<lambda>i. xs ! i) (filter (\<lambda>i. \<forall>j<i. key (xs ! j) \<noteq> key (xs ! i)) [0..<length xs])"

text \<open>
  The incoming record set after deduplication, date normalization and foreign-key
  filtering, in the order in which the loader applies them, without the messages.
\<close>

definition prepared :: "to_datetime \<Rightarrow> string \<Rightarrow> string list \<Rightarrow> (string \<times> query) list
                          \<Rightarrow> database \<Rightarrow> dataframe \<Rightarrow> exn + dataframe" where
  "prepared to_dt t dcs fks db df =
     (case snd (dedup_phase t df) of
        Inl e \<Rightarrow> Inl e
      | Inr df1 \<Rightarrow>
          (case convert_dates to_dt dcs df1 of
             Inl e \<Rightarrow> Inl e
           | Inr df2 \<Rightarrow> snd (fk_filter t fks db df2)))"

text \<open>The count a message reports for a foreign-key filter, and the total over a log.\<close>

fun removed_count :: "msg \<Rightarrow> nat" where
  "removed_count (RemovedFK n t c) = n"
| "removed_count m = 0"

definition reported_fk :: "msg list \<Rightarrow> nat" where
  "reported_fk ms = sum_list (map removed_count ms)"

text \<open>The seven tables as the schema script declares them, with no rows.\<close>

definition fresh_store :: database where
  "fresh_store = map (\<lambda>(n, d). (n, \<lparr>tdef = d, trows = []\<rparr>)) schema"

section \<open>Example data\<close>

text \<open>
  An instance of the date parser for the examples: it reads ISO dates, with or without a
  time of day, leaves missing values missing, and raises on anything else.
\<close>

definition digit_value :: "char \<Rightarrow> nat option" where
  "digit_value c =
     (let n = of_char c in if (48::nat) \<le> n \<and> n \<le> 57 then Some (n - 48) else None)"

definition number :: "string \<Rightarrow> nat option" where
  "number s =
     fold (\<lambda>c acc. case (acc, digit_value c) of
                     (Some a, Some d) \<Rightarrow> Some (10 * a + d)
                   | _ \<Rightarrow> None) s (Some 0)"

definition parse_iso :: "string \<Rightarrow> timestamp option" where
  "parse_iso s =
     (if (length s = 10 \<or> length s = 19 \<and> s ! 10 = CHR '' '' \<and> s ! 13 = CHR '':'' \<and>
          s ! 16 = CHR '':'') \<and> s ! 4 = CHR ''-'' \<and> s ! 7 = CHR ''-''
      then (case (number (take 4 s), number (take 2 (drop 5 s)), number (take 2 (drop 8 s)),
                  number (take 2 (drop 11 s)), number (take 2 (drop 14 s)),
                  number (take 2 (drop 17 s))) of
              (Some y, Some m, Some d, Some hh, Some mm, Some ss) \<Rightarrow>
                if 1 \<le> m \<and> m \<le> 12 \<and> 1 \<le> d \<and> d \<le> 31 \<and> hh < 24 \<and> mm < 60 \<and> ss < 60
                then Some ((y, m, d), hh * 3600 + mm * 60 + ss) else None
            | _ \<Rightarrow> None)
      else None)"

fun iso_value :: "val \<Rightarrow> timestamp option option" where
  "iso_value Null = Some None"
| "iso_value (DateV d) = Some (Some (d, 0))"
| "iso_value (TextV s) = map_option Some (parse_iso s)"
| "iso_value v = None"

fun iso_to_datetime :: to_datetime where
  "iso_to_datetime [] = Inr []"
| "iso_to_datetime (x # xs) =
     (case iso_value x of
        None \<Rightarrow> Inl (ValueError ''unknown datetime string format'')
      | Some t \<Rightarrow> (case iso_to_datetime xs of Inl e \<Rightarrow> Inl e | Inr ts \<Rightarrow> Inr (t # ts)))"

definition run_on :: "database \<Rightarrow> state" where
  "run_on db = \<lparr>db_file = db, handles = [], self_conn = None, stdout = []\<rparr>"

definition product_S1 :: row where
  "product_S1 = [(''sku_id'', TextV ''S1''), (''product_type'', TextV ''widget'')]"

definition product_S2 :: row where
  "product_S2 = [(''sku_id'', TextV ''S2''), (''product_type'', TextV ''gadget'')]"

definition product_cols :: "string list" where
  "product_cols = [''sku_id'', ''product_type'']"

definition frame_S1 :: dataframe where
  "frame_S1 = \<lparr>columns = product_cols, rows = [product_S1]\<rparr>"

definition frame_S2 :: dataframe where
  "frame_S2 = \<lparr>columns = product_cols, rows = [product_S2]\<rparr>"

definition product_only :: database where
  "product_only = [(''product'', \<lparr>tdef = product_def, trows = [product_S1]\<rparr>)]"

definition vendor_cols :: "string list" where
  "vendor_cols = [''vendor_id'', ''supplier_name'', ''defect_rate'']"

definition vendor_V1 :: row where
  "vendor_V1 = [(''vendor_id'', TextV ''V1''), (''supplier_name'', TextV ''Acme''),
                (''defect_rate'', RealV (1 / 50))]"

definition vendor_V2 :: row where
  "vendor_V2 = [(''vendor_id'', TextV ''V2''), (''supplier_name'', TextV ''Bolt''),
                (''defect_rate'', RealV (3 / 2))]"

definition vendor_only :: database where
  "vendor_only = [(''vendor'', \<lparr>tdef = vendor_def, trows = [vendor_V1]\<rparr>)]"

definition frame_V2 :: dataframe where
  "frame_V2 = \<lparr>columns = vendor_cols, rows = [vendor_V2]\<rparr>"

definition dup_a :: row where
  "dup_a = [(''vendor_id'', IntV 1), (''supplier_name'', TextV ''a'')]"

definition dup_b :: row where
  "dup_b = [(''vendor_id'', IntV 1), (''supplier_name'', TextV ''b'')]"

definition dup_c :: row where
  "dup_c = [(''vendor_id'', IntV 2), (''supplier_name'', TextV ''c'')]"

definition frame_dup :: dataframe where
  "frame_dup = \<lparr>columns = [''vendor_id'', ''supplier_name''], rows = [dup_a, dup_b, dup_c]\<rparr>"

definition frame_id :: dataframe where
  "frame_id = \<lparr>columns = [''id'', ''v''],
                rows = [[(''id'', IntV 1), (''v'', TextV ''a'')],
                        [(''id'', IntV 1), (''v'', TextV ''b'')],
                        [(''id'', IntV 2), (''v'', TextV ''c'')]]\<rparr>"

definition order_cols :: "string list" where
  "order_cols = [''po_id'', ''sku_id'']"

definition order_A :: row where
  "order_A = [(''po_id'', TextV ''A''), (''sku_id'', TextV ''S1'')]"

definition order_B :: row where
  "order_B = [(''po_id'', TextV ''B''), (''sku_id'', TextV ''S1'')]"

definition orders_only :: database where
  "orders_only = [(''purchase_order'', \<lparr>tdef = purchase_order_def, trows = [order_A, order_B]\<rparr>)]"

definition shipment_cols :: "string list" where
  "shipment_cols = [''shipment_id'', ''order_id'']"

definition ship_A :: row where
  "ship_A = [(''shipment_id'', TextV ''H1''), (''order_id'', TextV ''A'')]"

definition ship_C :: row where
  "ship_C = [(''shipment_id'', TextV ''H2''), (''order_id'', TextV ''C'')]"

definition frame_ships :: dataframe where
  "frame_ships = \<lparr>columns = shipment_cols, rows = [ship_A, ship_C]\<rparr>"

definition order_filter :: "(string \<times> query) list" where
  "order_filter = [(''order_id'', select_column ''po_id'' ''purchase_order'')]"

definition frame_header_only :: dataframe where
  "frame_header_only = \<lparr>columns = vendor_cols, rows = []\<rparr>"

definition absent_filter :: "(string \<times> query) list" where
  "absent_filter = [(''customer_id'', select_column ''id'' ''customer'')]"

definition frame_dated :: dataframe where
  "frame_dated = \<lparr>columns = [''po_id'', ''po_date''],
                   rows = [[(''po_id'', TextV ''P1''), (''po_date'', TextV ''2024-01-05 10:30:00'')],
                           [(''po_id'', TextV ''P2''), (''po_date'', Null)]]\<rparr>"

definition frame_undated :: dataframe where
  "frame_undated = \<lparr>columns = [''po_id'', ''po_date''],
                     rows = [[(''po_id'', TextV ''P1''), (''po_date'', TextV ''soon'')]]\<rparr>"

definition full_order_cols :: "string list" where
  "full_order_cols = [''po_id'', ''sku_id'', ''vendor_id'', ''po_date'', ''po_qty'',
                      ''promised_delivery_date'']"

definition order_P9 :: row where
  "order_P9 = [(''po_id'', TextV ''P9''), (''sku_id'', TextV ''S9''),
               (''vendor_id'', TextV ''V1''), (''po_date'', DateV (2024, 1, 1)),
               (''po_qty'', IntV 10), (''promised_delivery_date'', DateV (2024, 1, 10))]"

definition frame_P9 :: dataframe where
  "frame_P9 = \<lparr>columns = full_order_cols, rows = [order_P9]\<rparr>"

definition three_tables :: database where
  "three_tables =
     [(''product'', \<lparr>tdef = product_def, trows = [product_S1]\<rparr>),
      (''vendor'', \<lparr>tdef = vendor_def, trows = [vendor_V1]\<rparr>),
      (''purchase_order'', \<lparr>tdef = purchase_order_def, trows = []\<rparr>)]"

text \<open>
  An instance of the reader for the examples: a name of letters, digits, underscores and
  dollar signs that starts with a letter or an underscore and is not one of the words
  SQLite 3.46 reserves reads as itself; every other text is rejected (qualified names do
  not occur in the examples).
\<close>

definition name_start :: "char \<Rightarrow> bool" where
  "name_start c =
     (let n = (of_char c :: nat) in 65 \<le> n \<and> n \<le> 90 \<or> 97 \<le> n \<and> n \<le> 122 \<or> n = 95)"

definition name_char :: "char \<Rightarrow> bool" where
  "name_char c =
     (let n = (of_char c :: nat)
      in 65 \<le> n \<and> n \<le> 90 \<or> 97 \<le> n \<and> n \<le> 122 \<or> 48 \<le> n \<and> n \<le> 57 \<or> n = 95 \<or> n = 36)"

definition lower :: "char \<Rightarrow> char" where
  "lower c =
     (let n = (of_char c :: nat) in if 65 \<le> n \<and> n \<le> 90 then char_of (n + 32) else c)"

definition reserved_words :: "string list" where
  "reserved_words =
     [''add'', ''all'', ''alter'', ''and'', ''as'', ''autoincrement'', ''between'', ''case'',
      ''check'', ''collate'', ''commit'', ''constraint'', ''create'', ''default'',
      ''deferrable'', ''delete'', ''distinct'', ''drop'', ''else'', ''escape'', ''except'',
      ''exists'', ''foreign'', ''from'', ''group'', ''having'', ''in'', ''index'', ''insert'',
      ''intersect'', ''into'', ''is'', ''isnull'', ''join'', ''limit'', ''not'', ''nothing'',
      ''notnull'', ''null'', ''on'', ''or'', ''order'', ''primary'', ''references'',
      ''returning'', ''select'', ''set'', ''table'', ''then'', ''to'', ''transaction'',
      ''union'', ''unique'', ''update'', ''using'', ''values'', ''when'', ''where'']"

definition plain_names :: name_reader where
  "plain_names t =
     (case t of
        [] \<Rightarrow> Rejected
      | c # cs \<Rightarrow>
          if name_start c \<and> list_all name_char cs \<and> map lower t \<notin> set reserved_words
          then Names t else Rejected)"

definition no_extracts :: "string \<Rightarrow> csv" where
  "no_extracts file = Missing"

definition notes_def :: table_def where
  "notes_def = \<lparr>cols = [(''text'', False, None)], pkey = [], fkeys = [], checks = []\<rparr>"

definition store_with_notes :: database where
  "store_with_notes =
     [(''vendor'', \<lparr>tdef = vendor_def, trows = [vendor_V1]\<rparr>),
      (''notes'', \<lparr>tdef = notes_def, trows = [[(''text'', TextV ''n1'')]]\<rparr>),
      (''sqlite2'', \<lparr>tdef = notes_def, trows = [[(''text'', TextV ''n2'')]]\<rparr>)]"

definition stock_a :: row where
  "stock_a = [(''warehouse_id'', TextV ''W1''), (''sku_id'', TextV ''S1''),
              (''on_hand_qty'', IntV 5)]"

definition stock_b :: row where
  "stock_b = [(''warehouse_id'', TextV ''W1''), (''sku_id'', TextV ''S1''),
              (''on_hand_qty'', IntV 7)]"

definition stock_c :: row where
  "stock_c = [(''warehouse_id'', TextV ''W1''), (''sku_id'', TextV ''S2''),
              (''on_hand_qty'', IntV 3)]"

definition frame_stock :: dataframe where
  "frame_stock = \<lparr>columns = [''warehouse_id'', ''sku_id'', ''on_hand_qty''],
                   rows = [stock_a, stock_b, stock_c]\<rparr>"

definition store_with_spaced_name :: database where
  "store_with_spaced_name =
     [(''my table'', \<lparr>tdef = notes_def, trows = [[(''text'', TextV ''n1'')]]\<rparr>),
      (''vendor'', \<lparr>tdef = vendor_def, trows = [vendor_V1]\<rparr>)]"

section \<open>Properties\<close>

subsection \<open>Auxiliary facts\<close>

lemmas example_defs = run_on_def product_S1_def product_S2_def product_cols_def frame_S1_def
  frame_S2_def product_only_def vendor_cols_def vendor_V1_def vendor_V2_def vendor_only_def
  frame_V2_def dup_a_def dup_b_def dup_c_def frame_dup_def frame_id_def

lemmas dedup_defs = dedup_phase_def duplicated_def drop_duplicates_def PRIMARY_KEYS_def
  row_key_def cell_def bool_index_def Let_def

lemmas store_defs = replace_rows_def delete_from_def children_def to_sql_def records_def
  insert_row_def stored_def pk_conflict_def fk_ok_def sql_le_def sql_and_def update_conv'

lemma say_simps [simp]:
  "db_file (say ms s) = db_file s" "handles (say ms s) = handles s"
  "self_conn (say ms s) = self_conn s" "stdout (say ms s) = stdout s @ ms"
  by (simp_all add: say_def)

lemma connect_eq:
  "connect s =
     (length (handles s),
      s\<lparr>handles := handles s @ [\<lparr>is_open = True, foreign_keys = True\<rparr>],
        self_conn := Some (length (handles s))\<rparr>)"
  by (simp add: connect_def pragma_foreign_keys_def Let_def)

lemma cascade_keeps_empty:
  "map_of db t = Some tb \<Longrightarrow> trows tb = [] \<Longrightarrow>
     map_of (cascade n pd gone chs db) t = Some tb"
proof (induction n pd gone chs db rule: cascade.induct)
  case (1 pd gone chs db)
  then show ?case by simp
next
  case (2 n pd gone db)
  then show ?case by simp
next
  case (3 n pd gone ch c pc chs db)
  let ?next = "case map_of db ch of
          None \<Rightarrow> db
        | Some t \<Rightarrow>
            let keys = filter (\<lambda>v. v \<noteq> Null) (map (\<lambda>r. stored pd r pc) gone);
                out = filter (\<lambda>r. stored (tdef t) r c \<in> set keys) (trows t);
                kept = filter (\<lambda>r. stored (tdef t) r c \<notin> set keys) (trows t);
                db1 = AList.update ch (t\<lparr>trows := kept\<rparr>) db
            in cascade n (tdef t) out (children db1 ch) db1"
  have step: "map_of ?next t = Some tb"
  proof (cases "map_of db ch")
    case None
    then show ?thesis using 3(3) by simp
  next
    case (Some t')
    define keys where "keys = filter (\<lambda>v. v \<noteq> Null) (map (\<lambda>r. stored pd r pc) gone)"
    define out where "out = filter (\<lambda>r. stored (tdef t') r c \<in> set keys) (trows t')"
    define kept where "kept = filter (\<lambda>r. stored (tdef t') r c \<notin> set keys) (trows t')"
    define db1 where "db1 = AList.update ch (t'\<lparr>trows := kept\<rparr>) db"
    have db1: "map_of db1 t = Some tb"
    proof (cases "ch = t")
      case True
      then have "t' = tb" using Some 3(3) by simp
      then have "t'\<lparr>trows := kept\<rparr> = tb" using 3(4) by (simp add: kept_def)
      then show ?thesis using True by (simp add: db1_def update_conv')
    next
      case False
      then show ?thesis using 3(3) by (simp add: db1_def update_conv')
    qed
    have "map_of (cascade n (tdef t') out (children db1 ch) db1) t = Some tb"
      using 3(1) [OF Some keys_def out_def kept_def db1_def db1 3(4)] .
    then show ?thesis using Some by (simp add: Let_def keys_def out_def kept_def db1_def)
  qed
  have "map_of (cascade (Suc n) pd gone chs ?next) t = Some tb"
    using 3(2) [OF step 3(4)] .
  then show ?case by simp
qed

lemma delete_from_empties:
  assumes "delete_from fk t db = Inr db1"
  shows "\<exists>tb. map_of db1 t = Some tb \<and> trows tb = []"
proof (cases "map_of db t")
  case None
  then show ?thesis using assms by (simp add: delete_from_def)
next
  case (Some tb)
  let ?e = "tb\<lparr>trows := []\<rparr>"
  let ?db = "AList.update t ?e db"
  have e: "map_of ?db t = Some ?e" by (simp add: update_conv')
  have "map_of (cascade (length db) (tdef tb) (trows tb) (children ?db t) ?db) t = Some ?e"
    using e by (rule cascade_keeps_empty) simp
  then show ?thesis using assms Some e by (auto simp: delete_from_def Let_def split: if_splits)
qed

lemma insert_row_appends:
  assumes "insert_row fk t r db = Inr db1" and "map_of db t = Some tb"
  shows "map_of db1 t = Some (tb\<lparr>trows := trows tb @ [r]\<rparr>)"
  using assms by (auto simp: insert_row_def Let_def update_conv' split: if_splits)

lemma insert_rows_appends:
  "insert_rows fk t rs db = Inr db1 \<Longrightarrow> map_of db t = Some tb \<Longrightarrow>
     map_of db1 t = Some (tb\<lparr>trows := trows tb @ rs\<rparr>)"
proof (induction rs arbitrary: db tb)
  case Nil
  then show ?case by simp
next
  case (Cons r rs)
  from Cons.prems(1) obtain db' where r: "insert_row fk t r db = Inr db'"
    and rs: "insert_rows fk t rs db' = Inr db1"
    by (auto split: sum.splits)
  have "map_of db' t = Some (tb\<lparr>trows := trows tb @ [r]\<rparr>)"
    using r Cons.prems(2) by (rule insert_row_appends)
  from Cons.IH [OF rs this] show ?case by simp
qed

lemma records_empty: "rows df = [] \<Longrightarrow> records df = []"
  by (simp add: records_def)

lemma to_sql_fills_empty:
  assumes "to_sql df t fk db = Inr db1" and "map_of db t = Some tb" and "trows tb = []"
  shows "table_rows db1 t = Some (records df)"
proof (cases "rows df = []")
  case True
  then show ?thesis using assms by (simp add: to_sql_def table_rows_def records_empty)
next
  case False
  then have "insert_rows fk t (records df) db = Inr db1"
    using assms(1,2) by (simp add: to_sql_def split: if_splits)
  from insert_rows_appends [OF this assms(2)] show ?thesis
    using assms(3) by (simp add: table_rows_def)
qed

lemma replace_rows_success:
  assumes "replace_rows fk t df s = (Inr (), s')"
  shows "table_rows (db_file s') t = Some (records df)"
proof -
  from assms obtain db1 db2 where d: "delete_from fk t (db_file s) = Inr db1"
    and i: "to_sql df t fk db1 = Inr db2" and s': "db_file s' = db2"
    by (auto simp: replace_rows_def split: sum.splits)
  from delete_from_empties [OF d] obtain tb where "map_of db1 t = Some tb" "trows tb = []"
    by blast
  from to_sql_fills_empty [OF i this] show ?thesis by (simp add: s')
qed

lemma load_Content:
  "load_data_from_csv to_dt t (Content df) dcs fks s =
     (case dedup_phase t df of
        (report, Inl e) \<Rightarrow> (Inl e, say (Loading t # report) s)
      | (report, Inr df1) \<Rightarrow>
          (case convert_dates to_dt dcs df1 of
             Inl e \<Rightarrow> (Inl e, say (Loading t # report) s)
           | Inr df2 \<Rightarrow>
               (case fk_filter t fks (db_file s) df2 of
                  (removed, Inl e) \<Rightarrow>
                    (Inl e, say removed (snd (connect (say (Loading t # report) s))))
                | (removed, Inr df3) \<Rightarrow>
                    replace_rows True t df3
                      (say removed (snd (connect (say (Loading t # report) s)))))))"
  by (simp add: load_data_from_csv_def connect_eq Let_def split: prod.splits sum.splits)

lemma db_file_connect [simp]: "db_file (snd (connect s)) = db_file s"
  by (simp add: connect_eq)

lemma bool_index_Cons [simp]:
  "bool_index (b # bs) (x # xs) = (if b then x # bool_index bs xs else bool_index bs xs)"
  by (simp add: bool_index_def)

lemma bool_index_Nil [simp]: "bool_index [] xs = []" "bool_index bs [] = []"
  by (simp_all add: bool_index_def)

subsection \<open>Deduplication\<close>

lemma keep_from_index:
  "bool_index (map Not (duplicated_from seen (map key xs))) xs =
     map (\<lambda>i. xs ! i)
       (filter (\<lambda>i. key (xs ! i) \<notin> set seen \<and> (\<forall>j<i. key (xs ! j) \<noteq> key (xs ! i)))
          [0..<length xs])"
proof (induction xs arbitrary: seen)
  case Nil
  then show ?case by simp
next
  case (Cons x xs)
  have upt: "[0..<length (x # xs)] = 0 # map Suc [0..<length xs]"
    by (simp add: upt_conv_Cons map_Suc_upt del: upt_Suc)
  have shift: "\<And>i. (key (xs ! i) \<notin> set seen \<and>
                  (\<forall>j<Suc i. key ((x # xs) ! j) \<noteq> key (xs ! i))) =
               (key (xs ! i) \<notin> set (key x # seen) \<and> (\<forall>j<i. key (xs ! j) \<noteq> key (xs ! i)))"
    by (auto simp: All_less_Suc2)
  show ?case
    unfolding upt
    by (simp add: filter_map comp_def shift Cons.IH del: upt_Suc set_simps)
qed

lemma length_duplicated_from [simp]: "length (duplicated_from seen ks) = length ks"
  by (induction ks arbitrary: seen) auto

lemma count_flags:
  "length d = length xs \<Longrightarrow>
     length (filter id d) + length (bool_index (map Not d) xs) = length xs"
  by (induction d xs rule: list_induct2) auto

lemma any_flag: "(True \<in> set d) = (length (filter id d) \<noteq> 0)"
  by (induction d) auto

lemma primary_key_nonempty: "map_of PRIMARY_KEYS t = Some K \<Longrightarrow> K \<noteq> []"
  by (auto simp: PRIMARY_KEYS_def split: if_splits)

lemma primary_keys_agree_with_schema:
  "map_of schema t = Some d \<Longrightarrow> map_of PRIMARY_KEYS t = Some (pkey d)"
  by (auto simp: schema_def PRIMARY_KEYS_def vendor_def_def warehouse_def_def product_def_def
        purchase_order_def_def inventory_def_def shipment_def_def demand_def_def
      split: if_splits)

text \<open>
  Claim C3: for a table of the schema, with declared primary key \<open>K\<close> (one column or
  several), among the incoming rows with the same values on \<open>K\<close> exactly the first in
  input order is retained, the later ones are discarded, and the reported duplicate count
  is the number of rows discarded.
\<close>

theorem dedup_keeps_first_occurrence:
  assumes "map_of schema table_name = Some d" and "K = pkey d"
    and "set K \<subseteq> set (columns df)"
  shows "\<exists>report shown.
           dedup_phase table_name df =
             (report, Inr (df\<lparr>rows := first_occurrences (row_key K) (rows df)\<rparr>)) \<and>
           report =
             (let n = length (rows df) - length (first_occurrences (row_key K) (rows df))
              in if n = 0 then []
                 else [WarnDuplicates n table_name, DuplicateValues shown,
                       RemovedDuplicates n table_name K])"
proof -
  let ?d = "duplicated_from [] (map (row_key K) (rows df))"
  let ?kept = "bool_index (map Not ?d) (rows df)"
  have pk: "map_of PRIMARY_KEYS table_name = Some K"
    using assms(1,2) by (simp add: primary_keys_agree_with_schema)
  have kept: "?kept = first_occurrences (row_key K) (rows df)"
    using keep_from_index [of "[]" "row_key K" "rows df"] by (simp add: first_occurrences_def)
  have n: "length (filter id ?d) = length (rows df) - length ?kept"
    using count_flags [of ?d "rows df"] by simp
  have K: "K \<noteq> []" using pk by (rule primary_key_nonempty)
  show ?thesis
    using pk assms(3) K n kept
    by (simp add: dedup_phase_def duplicated_def drop_duplicates_def any_flag Let_def)
qed

lemma first_occurrences_frame_stock:
  "first_occurrences (row_key [''warehouse_id'', ''sku_id'']) (rows frame_stock)
     = [stock_a, stock_c]"
  by (simp add: first_occurrences_def row_key_def cell_def All_less_Suc upt_rec
      frame_stock_def stock_a_def stock_b_def stock_c_def)

theorem dedup_keeps_first_occurrence_witness:
  "map_of schema ''inventory'' = Some inventory_def \<and>
   pkey inventory_def = [''warehouse_id'', ''sku_id''] \<and>
   set [''warehouse_id'', ''sku_id''] \<subseteq> set (columns frame_stock) \<and>
   (\<exists>shown. dedup_phase ''inventory'' frame_stock =
      ([WarnDuplicates 1 ''inventory'', DuplicateValues shown,
        RemovedDuplicates 1 ''inventory'' [''warehouse_id'', ''sku_id'']],
       Inr (frame_stock\<lparr>rows := [stock_a, stock_c]\<rparr>)))"
proof -
  have d: "map_of schema ''inventory'' = Some inventory_def"
    by (simp add: schema_def)
  have pk: "[''warehouse_id'', ''sku_id''] = pkey inventory_def"
    by (simp add: inventory_def_def)
  have cols: "set [''warehouse_id'', ''sku_id''] \<subseteq> set (columns frame_stock)"
    by (simp add: frame_stock_def)
  have n: "length (rows frame_stock) = 3" by (simp add: frame_stock_def)
  show ?thesis
    using dedup_keeps_first_occurrence [OF d pk cols] d pk [symmetric] cols
    by (auto simp: first_occurrences_frame_stock n)
qed

text \<open>The example of the specification, keyed on \<open>id\<close>.\<close>

lemma drop_duplicates_example:
  "duplicated (Some [''id'']) frame_id = Inr [False, True, False] \<and>
   drop_duplicates [''id''] frame_id =
     Inr (frame_id\<lparr>rows := [[(''id'', IntV 1), (''v'', TextV ''a'')],
                              [(''id'', IntV 2), (''v'', TextV ''c'')]]\<rparr>)"
  by (simp add: duplicated_def drop_duplicates_def row_key_def cell_def frame_id_def)

lemma load_dedup_example:
  "load_data_from_csv to_dt ''vendor'' (Content frame_dup) [] []
     (run_on [(''vendor'', \<lparr>tdef = vendor_def, trows = []\<rparr>)]) =
   (Inr (),
    \<lparr>db_file = [(''vendor'', \<lparr>tdef = vendor_def, trows = [dup_a, dup_c]\<rparr>)],
     handles = [\<lparr>is_open = True, foreign_keys = True\<rparr>],
     self_conn = Some 0,
     stdout = [Loading ''vendor'', WarnDuplicates 1 ''vendor'', DuplicateValues [dup_b],
               RemovedDuplicates 1 ''vendor'' [''vendor_id''], Loaded 2 ''vendor'']\<rparr>)"
  by (simp add: load_data_from_csv_def connect_def pragma_foreign_keys_def say_def dedup_defs
      store_defs example_defs vendor_def_def stamps_def)

subsection \<open>Replacement\<close>

text \<open>
  Claim C1: a load that returns successfully leaves in the table exactly the incoming
  records after deduplication, date normalization and foreign-key filtering, whatever the
  table held before; so loading \<open>r1\<close> and then \<open>r2\<close> leaves what \<open>r2\<close> gives.
\<close>

theorem load_replaces_contents:
  "(load_data_from_csv to_dt t (Content df) dcs fks s = (Inr (), s') \<longrightarrow>
      (\<exists>df'. prepared to_dt t dcs fks (db_file s) df = Inr df' \<and>
             table_rows (db_file s') t = Some (records df'))) \<and>
   (load_data_from_csv to_dt t (Content r1) dcs1 fks1 s0 = (Inr (), s1) \<and>
    load_data_from_csv to_dt t (Content r2) dcs2 fks2 s1 = (Inr (), s2) \<longrightarrow>
      (\<exists>df'. prepared to_dt t dcs2 fks2 (db_file s1) r2 = Inr df' \<and>
             table_rows (db_file s2) t = Some (records df')))"
proof -
  have one: "\<exists>df'. prepared to_dt t dcs fks (db_file s) df = Inr df' \<and>
                  table_rows (db_file s') t = Some (records df')"
    if "load_data_from_csv to_dt t (Content df) dcs fks s = (Inr (), s')" for df dcs fks s s'
  proof -
    from that obtain report df1 df2 removed df3 where
      "dedup_phase t df = (report, Inr df1)" "convert_dates to_dt dcs df1 = Inr df2"
      "fk_filter t fks (db_file s) df2 = (removed, Inr df3)"
      and r: "replace_rows True t df3 (say removed (snd (connect (say (Loading t # report) s))))
                = (Inr (), s')"
      by (auto simp: load_Content split: prod.splits sum.splits)
    then have "prepared to_dt t dcs fks (db_file s) df = Inr df3"
      by (simp add: prepared_def)
    then show ?thesis using replace_rows_success [OF r] by blast
  qed
  show ?thesis using one by blast
qed

theorem load_replaces_contents_witness:
  "fst (load_data_from_csv iso_to_datetime ''product'' (Content frame_S1) [] []
          (run_on product_only)) = Inr () \<and>
   fst (load_data_from_csv iso_to_datetime ''product'' (Content frame_S2) [] []
          (snd (load_data_from_csv iso_to_datetime ''product'' (Content frame_S1) [] []
                  (run_on product_only)))) = Inr () \<and>
   table_rows
     (db_file (snd (load_data_from_csv iso_to_datetime ''product'' (Content frame_S2) [] []
          (snd (load_data_from_csv iso_to_datetime ''product'' (Content frame_S1) [] []
                  (run_on product_only)))))) ''product'' = Some [product_S2]"
proof -
  let ?s0 = "run_on product_only"
  let ?A = "load_data_from_csv iso_to_datetime ''product'' (Content frame_S1) [] [] ?s0"
  let ?B = "load_data_from_csv iso_to_datetime ''product'' (Content frame_S2) [] [] (snd ?A)"
  have a: "fst ?A = Inr ()"
    by (simp add: load_Content dedup_defs store_defs example_defs product_def_def stamps_def)
  have dbA: "db_file (snd ?A) = product_only"
    by (simp add: load_Content dedup_defs store_defs example_defs product_def_def stamps_def)
  have b: "fst ?B = Inr ()"
    by (simp add: load_Content dbA)
       (simp add: dedup_defs store_defs example_defs product_def_def stamps_def)
  have p: "prepared iso_to_datetime ''product'' [] [] (db_file (snd ?A)) frame_S2 = Inr frame_S2"
    by (simp add: prepared_def dedup_defs example_defs)
  have r: "records frame_S2 = [product_S2]"
    by (simp add: records_def cell_def example_defs)
  have "?A = (Inr (), snd ?A)" "?B = (Inr (), snd ?B)"
    using a b by (simp_all add: prod_eq_iff)
  with load_replaces_contents [where to_dt = iso_to_datetime and t = "''product''"
      and df = frame_S2 and dcs = "[]" and fks = "[]" and s = "snd ?A" and s' = "snd ?B"
      and ?r1.0 = frame_S1 and ?dcs1.0 = "[]" and ?fks1.0 = "[]" and ?s0.0 = ?s0
      and ?s1.0 = "snd ?A" and ?r2.0 = frame_S2 and ?dcs2.0 = "[]" and ?fks2.0 = "[]"
      and ?s2.0 = "snd ?B"] p r a b
  show ?thesis by auto
qed

text \<open>
  Claim C2: when the delete has run and the insert then fails, the load raises the
  insert's error and the table is left empty: nothing restores what it held, so a table
  that held rows is not in the state it had before the call.
\<close>

theorem insert_failure_leaves_table_empty:
  assumes "prepared to_dt t dcs fks (db_file s) df = Inr df'"
    and "delete_from True t (db_file s) = Inr db1"
    and "to_sql df' t True db1 = Inl e"
  shows "\<exists>s'. load_data_from_csv to_dt t (Content df) dcs fks s = (Inl e, s') \<and>
              db_file s' = db1 \<and> table_rows (db_file s') t = Some [] \<and>
              (table_rows (db_file s) t \<noteq> Some [] \<longrightarrow>
                 table_rows (db_file s') t \<noteq> table_rows (db_file s) t)"
proof -
  from assms(1) obtain report df1 where d: "dedup_phase t df = (report, Inr df1)"
    by (cases "dedup_phase t df") (auto simp: prepared_def split: sum.splits)
  from assms(1) d obtain df2 where c: "convert_dates to_dt dcs df1 = Inr df2"
    by (auto simp: prepared_def split: sum.splits)
  from assms(1) d c obtain removed where
    f: "fk_filter t fks (db_file s) df2 = (removed, Inr df')"
    by (cases "fk_filter t fks (db_file s) df2") (auto simp: prepared_def)
  from delete_from_empties [OF assms(2)] have "table_rows db1 t = Some []"
    by (auto simp: table_rows_def)
  then show ?thesis
    using assms(2,3) d c f by (auto simp: load_Content replace_rows_def)
qed

theorem insert_failure_leaves_table_empty_witness:
  "prepared iso_to_datetime ''vendor'' [] [] (db_file (run_on vendor_only)) frame_V2
     = Inr frame_V2 \<and>
   delete_from True ''vendor'' (db_file (run_on vendor_only))
     = Inr [(''vendor'', \<lparr>tdef = vendor_def, trows = []\<rparr>)] \<and>
   to_sql frame_V2 ''vendor'' True [(''vendor'', \<lparr>tdef = vendor_def, trows = []\<rparr>)]
     = Inl (IntegrityError ''CHECK constraint failed'') \<and>
   table_rows (db_file (run_on vendor_only)) ''vendor'' = Some [vendor_V1] \<and>
   (\<exists>s'. load_data_from_csv iso_to_datetime ''vendor'' (Content frame_V2) [] []
            (run_on vendor_only) = (Inl (IntegrityError ''CHECK constraint failed''), s') \<and>
         table_rows (db_file s') ''vendor'' = Some [])"
proof -
  have p: "prepared iso_to_datetime ''vendor'' [] [] (db_file (run_on vendor_only)) frame_V2
             = Inr frame_V2"
    by (simp add: prepared_def dedup_defs example_defs)
  have d: "delete_from True ''vendor'' (db_file (run_on vendor_only))
             = Inr [(''vendor'', \<lparr>tdef = vendor_def, trows = []\<rparr>)]"
    by (simp add: delete_from_def children_def example_defs vendor_def_def)
  have i: "to_sql frame_V2 ''vendor'' True [(''vendor'', \<lparr>tdef = vendor_def, trows = []\<rparr>)]
             = Inl (IntegrityError ''CHECK constraint failed'')"
    by (simp add: store_defs cell_def example_defs vendor_def_def stamps_def)
  have b: "table_rows (db_file (run_on vendor_only)) ''vendor'' = Some [vendor_V1]"
    by (simp add: table_rows_def example_defs)
  show ?thesis
    using insert_failure_leaves_table_empty [OF p d i] p d i b by auto
qed

lemmas example_defs2 = order_cols_def order_A_def order_B_def orders_only_def shipment_cols_def
  ship_A_def ship_C_def frame_ships_def order_filter_def frame_header_only_def

subsection \<open>Foreign-key filtering\<close>

lemma columns_isin_filter [simp]: "columns (isin_filter c vs df) = columns df"
  by (simp add: isin_filter_def)

lemma rows_isin_filter [simp]:
  "rows (isin_filter c vs df) = filter (\<lambda>r. cell r c \<in> set vs) (rows df)"
  by (simp add: isin_filter_def)

lemma reported_fk_simps [simp]:
  "reported_fk [] = 0" "reported_fk (RemovedFK n t c # ms) = n + reported_fk ms"
  "reported_fk (xs @ ys) = reported_fk xs + reported_fk ys"
  by (simp_all add: reported_fk_def)

text \<open>
  Claim C4: for every filter entry whose column the records have, the rows whose value
  is not among the values the reference query returns are removed, the others are kept,
  the removed rows are counted in the report, and the load goes on.
\<close>

theorem fk_filter_removes_orphans:
  assumes "\<forall>(c, q) \<in> set fks. c \<in> set (columns df) \<longrightarrow> (\<exists>vs. q db = Inr vs)"
  shows "\<exists>report df'.
           fk_filter t fks db df = (report, Inr df') \<and> columns df' = columns df \<and>
           rows df' =
             filter (\<lambda>r. \<forall>(c, q) \<in> set fks. c \<in> set (columns df) \<longrightarrow>
                            (\<forall>vs. q db = Inr vs \<longrightarrow> cell r c \<in> set vs)) (rows df) \<and>
           reported_fk report = length (rows df) - length (rows df') \<and>
           (\<forall>m \<in> set report. \<exists>n c. m = RemovedFK n t c \<and> 0 < n \<and> c \<in> fst ` set fks \<and>
                                   c \<in> set (columns df))"
  using assms
proof (induction fks arbitrary: df)
  case Nil
  then show ?case by simp
next
  case (Cons a fks)
  obtain c q where a: "a = (c, q)" by (cases a)
  show ?case
  proof (cases "c \<in> set (columns df)")
    case False
    from Cons.prems have "\<forall>(c, q) \<in> set fks. c \<in> set (columns df) \<longrightarrow> (\<exists>vs. q db = Inr vs)"
      by simp
    from Cons.IH [OF this] obtain report df' where ih:
      "fk_filter t fks db df = (report, Inr df')" "columns df' = columns df"
      "rows df' =
         filter (\<lambda>r. \<forall>(c, q) \<in> set fks. c \<in> set (columns df) \<longrightarrow>
                        (\<forall>vs. q db = Inr vs \<longrightarrow> cell r c \<in> set vs)) (rows df)"
      "reported_fk report = length (rows df) - length (rows df')"
      "\<forall>m \<in> set report. \<exists>n c. m = RemovedFK n t c \<and> 0 < n \<and> c \<in> fst ` set fks \<and>
                                   c \<in> set (columns df)"
      by blast
    have run: "fk_filter t (a # fks) db df = (report, Inr df')"
      using a False ih(1) by simp
    have rows: "rows df' =
         filter (\<lambda>r. \<forall>(c, q) \<in> set (a # fks). c \<in> set (columns df) \<longrightarrow>
                        (\<forall>vs. q db = Inr vs \<longrightarrow> cell r c \<in> set vs)) (rows df)"
      using ih(3) a False by simp
    have msgs: "\<forall>m \<in> set report. \<exists>n c'. m = RemovedFK n t c' \<and> 0 < n \<and>
                  c' \<in> fst ` set (a # fks) \<and> c' \<in> set (columns df)"
    proof
      fix m assume "m \<in> set report"
      with ih(5) obtain n c' where "m = RemovedFK n t c'" "0 < n" "c' \<in> fst ` set fks"
        "c' \<in> set (columns df)" by blast
      then show "\<exists>n c'. m = RemovedFK n t c' \<and> 0 < n \<and> c' \<in> fst ` set (a # fks) \<and>
                   c' \<in> set (columns df)" by auto
    qed
    show ?thesis using run ih(2) rows ih(4) msgs by blast
  next
    case True
    with Cons.prems a obtain vs where vs: "q db = Inr vs" by auto
    let ?df1 = "isin_filter c vs df"
    from Cons.prems
    have "\<forall>(c, q) \<in> set fks. c \<in> set (columns ?df1) \<longrightarrow> (\<exists>vs. q db = Inr vs)"
      by simp
    from Cons.IH [OF this] obtain report df' where ih:
      "fk_filter t fks db ?df1 = (report, Inr df')" "columns df' = columns df"
      "rows df' =
         filter (\<lambda>r. \<forall>(c, q) \<in> set fks. c \<in> set (columns df) \<longrightarrow>
                        (\<forall>vs. q db = Inr vs \<longrightarrow> cell r c \<in> set vs)) (rows ?df1)"
      "reported_fk report = length (rows ?df1) - length (rows df')"
      "\<forall>m \<in> set report. \<exists>n c. m = RemovedFK n t c \<and> 0 < n \<and> c \<in> fst ` set fks \<and>
                                   c \<in> set (columns df)"
      by auto
    let ?n = "length (rows df) - length (rows ?df1)"
    let ?head = "if ?n \<noteq> 0 then [RemovedFK ?n t c] else []"
    have run: "fk_filter t (a # fks) db df = (?head @ report, Inr df')"
      using a True vs ih(1) by (simp add: Let_def)
    have rows: "rows df' =
         filter (\<lambda>r. \<forall>(c, q) \<in> set (a # fks). c \<in> set (columns df) \<longrightarrow>
                        (\<forall>vs. q db = Inr vs \<longrightarrow> cell r c \<in> set vs)) (rows df)"
      using ih(3) a True vs by (auto intro: filter_cong)
    have le1: "length (rows ?df1) \<le> length (rows df)" by simp
    have le2: "length (rows df') \<le> length (rows ?df1)" unfolding ih(3) by (rule length_filter_le)
    have count: "reported_fk (?head @ report) = length (rows df) - length (rows df')"
      using ih(4) le1 le2 by (simp del: rows_isin_filter)
    have msgs: "\<forall>m \<in> set (?head @ report). \<exists>n c'. m = RemovedFK n t c' \<and> 0 < n \<and>
                  c' \<in> fst ` set (a # fks) \<and> c' \<in> set (columns df)"
    proof
      fix m assume "m \<in> set (?head @ report)"
      then consider "m = RemovedFK ?n t c" "?n \<noteq> 0" | "m \<in> set report"
        by (auto split: if_splits)
      then show "\<exists>n c'. m = RemovedFK n t c' \<and> 0 < n \<and> c' \<in> fst ` set (a # fks) \<and>
                   c' \<in> set (columns df)"
      proof cases
        case 1
        then show ?thesis using a True by auto
      next
        case 2
        with ih(5) obtain n c' where "m = RemovedFK n t c'" "0 < n" "c' \<in> fst ` set fks"
          "c' \<in> set (columns df)" by blast
        then show ?thesis by auto
      qed
    qed
    show ?thesis using run ih(2) rows count msgs by blast
  qed
qed

theorem fk_filter_removes_orphans_witness:
  "select_column ''po_id'' ''purchase_order'' orders_only = Inr [TextV ''A'', TextV ''B''] \<and>
   (\<exists>report df'. fk_filter ''shipment'' order_filter orders_only frame_ships
                    = (report, Inr df') \<and>
                  columns df' = shipment_cols \<and> rows df' = [ship_A] \<and>
                  reported_fk report = 1)"
proof -
  have q: "select_column ''po_id'' ''purchase_order'' orders_only = Inr [TextV ''A'', TextV ''B'']"
    by (simp add: select_column_def stored_def example_defs2 purchase_order_def_def)
  have h: "\<forall>(c, q) \<in> set order_filter. c \<in> set (columns frame_ships) \<longrightarrow>
             (\<exists>vs. q orders_only = Inr vs)"
    by (simp add: order_filter_def q)
  have f: "filter (\<lambda>r. \<forall>(c, q) \<in> set order_filter. c \<in> set (columns frame_ships) \<longrightarrow>
                     (\<forall>vs. q orders_only = Inr vs \<longrightarrow> cell r c \<in> set vs)) (rows frame_ships)
           = [ship_A]"
    by (simp add: order_filter_def q) (simp add: cell_def example_defs2)
  have n: "length (rows frame_ships) = 2" "columns frame_ships = shipment_cols"
    by (simp_all add: frame_ships_def)
  show ?thesis
    using fk_filter_removes_orphans [OF h, of "''shipment''", unfolded f] q n by auto
qed

text \<open>The example of the specification: keys A and B exist, the rows refer to A and C.\<close>

lemma fk_filter_example:
  "fk_filter ''shipment'' order_filter orders_only frame_ships =
     ([RemovedFK 1 ''shipment'' ''order_id''], Inr (frame_ships\<lparr>rows := [ship_A]\<rparr>))"
  by (simp add: order_filter_def select_column_def stored_def purchase_order_def_def
      orders_only_def order_A_def order_B_def)
     (simp add: cell_def frame_ships_def shipment_cols_def ship_A_def ship_C_def Let_def)

lemmas example_defs3 = absent_filter_def frame_dated_def frame_undated_def

subsection \<open>A missing source\<close>

text \<open>
  Claim C5, as amended: a load whose source file is missing changes neither the store
  nor the connections; it prints a warning and returns without raising.
\<close>

theorem missing_source_is_noop:
  "load_data_from_csv to_dt t Missing dcs fks s =
     (Inr (), s\<lparr>stdout := stdout s @ [WarnNotFound t]\<rparr>)"
  by (simp add: load_data_from_csv_def say_def)

theorem missing_source_is_noop_witness:
  "fst (load_data_from_csv iso_to_datetime ''vendor'' Missing [] [] (run_on vendor_only))
     = Inr () \<and>
   table_rows
     (db_file (snd (load_data_from_csv iso_to_datetime ''vendor'' Missing [] []
                      (run_on vendor_only)))) ''vendor'' = Some [vendor_V1]"
  using missing_source_is_noop [of iso_to_datetime "''vendor''" "[]" "[]" "run_on vendor_only"]
  by (simp add: table_rows_def run_on_def vendor_only_def)

text \<open>
  A source that exists and holds no records is not skipped: the table is emptied. Here
  the extract holds the header line only.
\<close>

theorem header_only_source_empties_table:
  "rows frame_header_only = [] \<and>
   table_rows (db_file (run_on vendor_only)) ''vendor'' = Some [vendor_V1] \<and>
   load_data_from_csv iso_to_datetime ''vendor'' (Content frame_header_only) [] []
       (run_on vendor_only) =
     (Inr (),
      \<lparr>db_file = [(''vendor'', \<lparr>tdef = vendor_def, trows = []\<rparr>)],
       handles = [\<lparr>is_open = True, foreign_keys = True\<rparr>],
       self_conn = Some 0,
       stdout = [Loading ''vendor'', Loaded 0 ''vendor'']\<rparr>)"
  by (simp add: load_data_from_csv_def connect_def pragma_foreign_keys_def say_def dedup_defs
      replace_rows_def delete_from_def children_def to_sql_def table_rows_def update_conv'
      run_on_def vendor_only_def frame_header_only_def vendor_cols_def vendor_def_def)

subsection \<open>Columns the records lack\<close>

lemma columns_set_column [simp]: "columns (set_column c vs df) = columns df"
  by (simp add: set_column_def)

lemma convert_dates_present:
  "convert_dates to_dt dcs df =
     convert_dates to_dt (filter (\<lambda>d. d \<in> set (columns df)) dcs) df"
proof (induction dcs arbitrary: df)
  case Nil
  then show ?case by simp
next
  case (Cons d dcs)
  show ?case
  proof (cases "d \<in> set (columns df)")
    case True
    then show ?thesis
      using Cons.IH [of "set_column d vs df" for vs] by (simp split: sum.splits)
  next
    case False
    then show ?thesis using Cons.IH [of df] by simp
  qed
qed

lemma fk_filter_present:
  "fk_filter t fks db df =
     fk_filter t (filter (\<lambda>(c, q). c \<in> set (columns df)) fks) db df"
proof (induction fks arbitrary: df)
  case Nil
  then show ?case by simp
next
  case (Cons a fks)
  obtain c q where a: "a = (c, q)" by (cases a)
  show ?case
  proof (cases "c \<in> set (columns df)")
    case True
    then show ?thesis
      using a Cons.IH [of "isin_filter c vs df" for vs] by (simp split: sum.splits)
  next
    case False
    then show ?thesis using a Cons.IH [of df] by simp
  qed
qed

lemma columns_dedup_phase:
  "dedup_phase t df = (report, Inr df1) \<Longrightarrow> columns df1 = columns df"
  by (auto simp: dedup_phase_def drop_duplicates_def Let_def
           split: sum.splits option.splits if_splits)

text \<open>
  Claim C9: a date column or a filter column that the records lack is passed over. The
  load is the load without these entries, in its result, in the store and in what it
  prints; a filter list that names only such columns filters nothing.
\<close>

theorem absent_columns_are_skipped:
  "load_data_from_csv to_dt t (Content df) dcs fks s =
     load_data_from_csv to_dt t (Content df)
       (filter (\<lambda>d. d \<in> set (columns df)) dcs)
       (filter (\<lambda>(c, q). c \<in> set (columns df)) fks) s \<and>
   ((\<forall>(c, q) \<in> set fks. c \<notin> set (columns df)) \<longrightarrow> fk_filter t fks db df = ([], Inr df)) \<and>
   ((\<forall>d \<in> set dcs. d \<notin> set (columns df)) \<longrightarrow> convert_dates to_dt dcs df = Inr df)"
proof (intro conjI impI)
  show "load_data_from_csv to_dt t (Content df) dcs fks s =
          load_data_from_csv to_dt t (Content df)
            (filter (\<lambda>d. d \<in> set (columns df)) dcs)
            (filter (\<lambda>(c, q). c \<in> set (columns df)) fks) s"
  proof (cases "dedup_phase t df")
    case (Pair report r)
    show ?thesis
    proof (cases r)
      case (Inl e)
      then show ?thesis using Pair by (simp add: load_Content)
    next
      case (Inr df1)
      then have c1: "columns df1 = columns df" using Pair by (simp add: columns_dedup_phase)
      have conv: "convert_dates to_dt dcs df1 =
                    convert_dates to_dt (filter (\<lambda>d. d \<in> set (columns df)) dcs) df1"
        using convert_dates_present [of to_dt dcs df1] by (simp add: c1)
      have filt: "fk_filter t fks (db_file s) df2 =
                    fk_filter t (filter (\<lambda>(c, q). c \<in> set (columns df)) fks) (db_file s) df2"
        if "convert_dates to_dt dcs df1 = Inr df2" for df2
      proof -
        have "columns df2 = columns df1"
          using that
        proof (induction dcs arbitrary: df1)
          case Nil
          then show ?case by simp
        next
          case (Cons d dcs)
          then show ?case by (fastforce split: if_splits sum.splits)
        qed
        then show ?thesis using fk_filter_present [of t fks "db_file s" df2] by (simp add: c1)
      qed
      show ?thesis
        using Pair Inr conv filt by (simp add: load_Content split: sum.splits)
    qed
  qed
next
  assume "\<forall>(c, q) \<in> set fks. c \<notin> set (columns df)"
  then have "filter (\<lambda>(c, q). c \<in> set (columns df)) fks = []"
    by (auto simp: filter_empty_conv)
  then show "fk_filter t fks db df = ([], Inr df)"
    using fk_filter_present [of t fks db df] by simp
next
  assume "\<forall>d \<in> set dcs. d \<notin> set (columns df)"
  then have "filter (\<lambda>d. d \<in> set (columns df)) dcs = []"
    by (auto simp: filter_empty_conv)
  then show "convert_dates to_dt dcs df = Inr df"
    using convert_dates_present [of to_dt dcs df] by simp
qed

theorem absent_columns_are_skipped_witness:
  "''customer_id'' \<notin> set (columns frame_ships) \<and>
   ''eta'' \<notin> set (columns frame_ships) \<and>
   fk_filter ''shipment'' absent_filter orders_only frame_ships = ([], Inr frame_ships) \<and>
   convert_dates iso_to_datetime [''eta''] frame_ships = Inr frame_ships \<and>
   load_data_from_csv iso_to_datetime ''shipment'' (Content frame_ships) [''eta'']
       absent_filter (run_on orders_only) =
     load_data_from_csv iso_to_datetime ''shipment'' (Content frame_ships) [] []
       (run_on orders_only)"
proof -
  have a: "\<forall>(c, q) \<in> set absent_filter. c \<notin> set (columns frame_ships)"
    by (simp add: absent_filter_def frame_ships_def shipment_cols_def)
  have b: "\<forall>d \<in> set [''eta'']. d \<notin> set (columns frame_ships)"
    by (simp add: frame_ships_def shipment_cols_def)
  have c: "filter (\<lambda>d. d \<in> set (columns frame_ships)) [''eta''] = []"
    "filter (\<lambda>(c, q). c \<in> set (columns frame_ships)) absent_filter = []"
    by (simp_all add: absent_filter_def frame_ships_def shipment_cols_def)
  show ?thesis
    using absent_columns_are_skipped [of iso_to_datetime "''shipment''" frame_ships "[''eta'']"
        absent_filter "run_on orders_only" orders_only] a b
    unfolding c by (auto simp: frame_ships_def shipment_cols_def)
qed

subsection \<open>Date columns\<close>

lemma length_set_column:
  "length vs = length (rows df) \<Longrightarrow> length (rows (set_column c vs df)) = length (rows df)"
  by (simp add: set_column_def)

lemma cell_update: "cell (AList.update c v r) c' = (if c' = c then v else cell r c')"
  by (simp add: cell_def update_conv')

lemma column_set_column:
  assumes "length vs = length (rows df)"
  shows "column (set_column c vs df) c' = (if c' = c then vs else column df c')"
proof -
  have "map (\<lambda>r. cell r c') (map2 (\<lambda>r v. AList.update c v r) rs vs) =
          (if c' = c then vs else map (\<lambda>r. cell r c') rs)"
    if "length vs = length rs" for rs
    using that by (induction vs rs rule: list_induct2) (auto simp: cell_update)
  then show ?thesis using assms by (simp add: column_def set_column_def)
qed

lemma convert_dates_untouched:
  assumes "\<forall>xs ts. to_dt xs = Inr ts \<longrightarrow> length ts = length xs"
  shows "c \<notin> set dcs \<Longrightarrow> convert_dates to_dt dcs df = Inr df' \<Longrightarrow> column df' c = column df c"
proof (induction dcs arbitrary: df)
  case Nil
  then show ?case by simp
next
  case (Cons d dcs)
  show ?case
  proof (cases "d \<in> set (columns df)")
    case False
    then show ?thesis using Cons by simp
  next
    case True
    with Cons.prems(2) obtain ts where ts: "to_dt (column df d) = Inr ts"
      and rest: "convert_dates to_dt dcs (set_column d (map dt_date ts) df) = Inr df'"
      by (auto split: sum.splits)
    have len: "length (map dt_date ts) = length (rows df)"
      using assms ts by (simp add: column_def)
    have "column df' c = column (set_column d (map dt_date ts) df) c"
      using Cons.IH [OF _ rest] Cons.prems(1) by simp
    then show ?thesis using Cons.prems(1) by (simp add: column_set_column [OF len])
  qed
qed

lemma convert_dates_column:
  assumes "\<forall>xs ts. to_dt xs = Inr ts \<longrightarrow> length ts = length xs"
  shows "c \<in> set dcs \<Longrightarrow> c \<in> set (columns df) \<Longrightarrow> convert_dates to_dt dcs df = Inr df' \<Longrightarrow>
         \<exists>xs ts. to_dt xs = Inr ts \<and> column df' c = map dt_date ts \<and>
                 (count_list dcs c = 1 \<longrightarrow> xs = column df c)"
proof (induction dcs arbitrary: df)
  case Nil
  then show ?case by simp
next
  case (Cons d dcs)
  show ?case
  proof (cases "d \<in> set (columns df)")
    case False
    then have "d \<noteq> c" using Cons.prems(2) by auto
    then show ?thesis using Cons False by simp
  next
    case True
    with Cons.prems(3) obtain ts0 where ts0: "to_dt (column df d) = Inr ts0"
      and rest: "convert_dates to_dt dcs (set_column d (map dt_date ts0) df) = Inr df'"
      by (auto split: sum.splits)
    let ?df1 = "set_column d (map dt_date ts0) df"
    have len: "length (map dt_date ts0) = length (rows df)"
      using assms ts0 by (simp add: column_def)
    have c1: "c \<in> set (columns ?df1)" using Cons.prems(2) by simp
    show ?thesis
    proof (cases "c \<in> set dcs")
      case True
      from Cons.IH [OF True c1 rest] obtain xs ts where x: "to_dt xs = Inr ts"
        "column df' c = map dt_date ts" "count_list dcs c = 1 \<longrightarrow> xs = column ?df1 c"
        by blast
      have "count_list (d # dcs) c = 1 \<longrightarrow> xs = column df c"
      proof
        assume one: "count_list (d # dcs) c = 1"
        have "count_list dcs c \<noteq> 0" using True by (simp add: count_list_0_iff)
        with one have "d \<noteq> c" "count_list dcs c = 1" by (auto split: if_splits)
        with x(3) show "xs = column df c" by (simp add: column_set_column [OF len])
      qed
      with x(1,2) show ?thesis by blast
    next
      case False
      then have dc: "d = c" using Cons.prems(1) by simp
      from convert_dates_untouched [OF assms False rest]
      have "column df' c = map dt_date ts0" using dc by (simp add: column_set_column [OF len])
      moreover have "to_dt (column df c) = Inr ts0" using ts0 dc by simp
      ultimately show ?thesis by blast
    qed
  qed
qed

lemma convert_dates_raises:
  assumes "\<forall>xs ts. to_dt xs = Inr ts \<longrightarrow> length ts = length xs"
  shows "c \<in> set dcs \<Longrightarrow> c \<in> set (columns df) \<Longrightarrow> to_dt (column df c) = Inl e \<Longrightarrow>
         \<exists>e'. convert_dates to_dt dcs df = Inl e'"
proof (induction dcs arbitrary: df)
  case Nil
  then show ?case by simp
next
  case (Cons d dcs)
  show ?case
  proof (cases "d = c")
    case True
    then show ?thesis using Cons.prems by simp
  next
    case False
    then have c: "c \<in> set dcs" using Cons.prems(1) by simp
    show ?thesis
    proof (cases "d \<in> set (columns df)")
      case False
      then show ?thesis using Cons.IH [OF c Cons.prems(2,3)] by simp
    next
      case True
      show ?thesis
      proof (cases "to_dt (column df d)")
        case (Inl e1)
        then show ?thesis using True by simp
      next
        case (Inr ts)
        have len: "length (map dt_date ts) = length (rows df)"
          using assms Inr by (simp add: column_def)
        have "to_dt (column (set_column d (map dt_date ts) df) c) = Inl e"
          using Cons.prems(3) \<open>d \<noteq> c\<close> by (simp add: column_set_column [OF len])
        from Cons.IH [OF c _ this] Cons.prems(2)
        show ?thesis using True Inr by simp
      qed
    qed
  qed
qed

text \<open>
  Claim C8: a date column that the records have is parsed and each timestamp is cut
  down to its calendar date before anything is stored (when the column is named once,
  the values parsed are the incoming ones); when a value of such a column cannot be
  parsed the load raises, and the store is as it was. The parser returns as many
  timestamps as it is given values.
\<close>

theorem date_columns_are_normalized:
  assumes "\<forall>xs ts. to_dt xs = Inr ts \<longrightarrow> length ts = length xs"
    and "c \<in> set dcs" and "c \<in> set (columns df)"
    and "dedup_phase t df = (report, Inr df1)"
  shows "(\<forall>df2. convert_dates to_dt dcs df1 = Inr df2 \<longrightarrow>
            (\<exists>xs ts. to_dt xs = Inr ts \<and> column df2 c = map dt_date ts \<and>
                     (count_list dcs c = 1 \<longrightarrow> xs = column df1 c))) \<and>
         (\<forall>e. to_dt (column df1 c) = Inl e \<longrightarrow>
            (\<exists>e'. load_data_from_csv to_dt t (Content df) dcs fks s =
                     (Inl e', say (Loading t # report) s)))"
proof (intro conjI allI impI)
  have c1: "c \<in> set (columns df1)"
    using assms(3,4) by (simp add: columns_dedup_phase)
  {
    fix df2 assume "convert_dates to_dt dcs df1 = Inr df2"
    from convert_dates_column [OF assms(1,2) c1 this]
    show "\<exists>xs ts. to_dt xs = Inr ts \<and> column df2 c = map dt_date ts \<and>
                  (count_list dcs c = 1 \<longrightarrow> xs = column df1 c)" .
  }
  {
    fix e assume "to_dt (column df1 c) = Inl e"
    from convert_dates_raises [OF assms(1,2) c1 this]
    obtain e' where "convert_dates to_dt dcs df1 = Inl e'" ..
    then show "\<exists>e'. load_data_from_csv to_dt t (Content df) dcs fks s =
                      (Inl e', say (Loading t # report) s)"
      using assms(4) by (simp add: load_Content)
  }
qed

lemma length_iso_to_datetime:
  "iso_to_datetime xs = Inr ts \<Longrightarrow> length ts = length xs"
  by (induction xs arbitrary: ts) (auto split: option.splits sum.splits)

theorem date_columns_are_normalized_witness:
  "''po_date'' \<in> set (columns frame_dated) \<and>
   dedup_phase ''purchase_order'' frame_dated = ([], Inr frame_dated) \<and>
   dedup_phase ''purchase_order'' frame_undated = ([], Inr frame_undated) \<and>
   iso_to_datetime (column frame_dated ''po_date'') = Inr [Some ((2024, 1, 5), 37800), None] \<and>
   (\<exists>df2. convert_dates iso_to_datetime [''po_date''] frame_dated = Inr df2 \<and>
          column df2 ''po_date'' = [DateV (2024, 1, 5), Null]) \<and>
   (\<exists>e. iso_to_datetime (column frame_undated ''po_date'') = Inl e) \<and>
   (\<exists>e'. load_data_from_csv iso_to_datetime ''purchase_order'' (Content frame_undated)
            [''po_date''] [] (run_on orders_only) =
          (Inl e', say [Loading ''purchase_order''] (run_on orders_only)))"
proof -
  have len: "\<forall>xs ts. iso_to_datetime xs = Inr ts \<longrightarrow> length ts = length xs"
    using length_iso_to_datetime by blast
  have d1: "dedup_phase ''purchase_order'' frame_dated = ([], Inr frame_dated)"
    by (simp add: dedup_defs frame_dated_def)
  have d2: "dedup_phase ''purchase_order'' frame_undated = ([], Inr frame_undated)"
    by (simp add: dedup_defs frame_undated_def)
  have c1: "''po_date'' \<in> set (columns frame_dated)" by (simp add: frame_dated_def)
  have c2: "''po_date'' \<in> set (columns frame_undated)" by (simp add: frame_undated_def)
  have p1: "iso_to_datetime (column frame_dated ''po_date'')
              = Inr [Some ((2024, 1, 5), 37800), None]"
    by (simp add: column_def cell_def frame_dated_def parse_iso_def number_def digit_value_def)
  have p2: "iso_to_datetime (column frame_undated ''po_date'')
              = Inl (ValueError ''unknown datetime string format'')"
    by (simp add: column_def cell_def frame_undated_def parse_iso_def)
  have conv: "\<exists>df2. convert_dates iso_to_datetime [''po_date''] frame_dated = Inr df2"
    using c1 p1 by simp
  show ?thesis
    using date_columns_are_normalized [OF len _ c1 d1, of "[''po_date'']"]
      date_columns_are_normalized [OF len _ c2 d2, of "[''po_date'']" "[]" "run_on orders_only"]
      d1 d2 c1 p1 p2 conv
    by auto
qed

lemmas example_defs5 = full_order_cols_def order_P9_def frame_P9_def three_tables_def

subsection \<open>Foreign-key enforcement\<close>

lemma handles_create_tables:
  "handles (create_tables s) = handles s @ [\<lparr>is_open = True, foreign_keys = True\<rparr>]"
  by (simp add: create_tables_def connect_eq pragma_foreign_keys_def)

lemma handles_verify_tables:
  "handles (verify_tables s) = handles s @ [\<lparr>is_open = True, foreign_keys = True\<rparr>]"
  by (simp add: verify_tables_def connect_eq Let_def)

text \<open>
  Claim C10: the connection that \<^verbatim>\<open>connect\<close> returns has foreign-key enforcement on;
  the delete and the insert of a load run with enforcement on, and the connections of
  schema creation and of verification have it on as well.
\<close>

theorem connect_enables_foreign_keys:
  "fst (connect s) = length (handles s) \<and>
   handles (snd (connect s)) = handles s @ [\<lparr>is_open = True, foreign_keys = True\<rparr>] \<and>
   self_conn (snd (connect s)) = Some (length (handles s)) \<and>
   (prepared to_dt t dcs fks (db_file s) df = Inr df' \<longrightarrow>
      (\<exists>s1. db_file s1 = db_file s \<and>
            load_data_from_csv to_dt t (Content df) dcs fks s = replace_rows True t df' s1)) \<and>
   foreign_keys (last (handles (create_tables s))) \<and>
   foreign_keys (last (handles (verify_tables s)))"
proof (intro conjI impI)
  assume p: "prepared to_dt t dcs fks (db_file s) df = Inr df'"
  from p obtain report df1 where d: "dedup_phase t df = (report, Inr df1)"
    by (cases "dedup_phase t df") (auto simp: prepared_def split: sum.splits)
  from p d obtain df2 where c: "convert_dates to_dt dcs df1 = Inr df2"
    by (auto simp: prepared_def split: sum.splits)
  from p d c obtain removed where f: "fk_filter t fks (db_file s) df2 = (removed, Inr df')"
    by (cases "fk_filter t fks (db_file s) df2") (auto simp: prepared_def)
  let ?s1 = "say removed (snd (connect (say (Loading t # report) s)))"
  have "db_file ?s1 = db_file s" by simp
  moreover have "load_data_from_csv to_dt t (Content df) dcs fks s = replace_rows True t df' ?s1"
    using d c f by (simp add: load_Content)
  ultimately show "\<exists>s1. db_file s1 = db_file s \<and>
      load_data_from_csv to_dt t (Content df) dcs fks s = replace_rows True t df' s1"
    by blast
qed (simp_all add: connect_eq handles_create_tables handles_verify_tables)

text \<open>
  An order that names a product the store does not have: with enforcement on the insert
  is refused; the same rows on a connection without enforcement would go in.
\<close>

lemma orphan_insert_refused:
  "replace_rows True ''purchase_order'' frame_P9 (run_on three_tables) =
     (Inl (IntegrityError ''FOREIGN KEY constraint failed''), run_on three_tables)"
  by (simp add: store_defs cell_def Let_def example_defs example_defs5 purchase_order_def_def
      product_def_def vendor_def_def stamps_def isoformat.simps digit_def)

lemma orphan_insert_unchecked:
  "fst (replace_rows False ''purchase_order'' frame_P9 (run_on three_tables)) = Inr ()"
  by (simp add: store_defs cell_def Let_def example_defs example_defs5 purchase_order_def_def
      product_def_def vendor_def_def stamps_def isoformat.simps digit_def)

theorem connect_enables_foreign_keys_witness:
  "prepared iso_to_datetime ''purchase_order'' [] [] (db_file (run_on three_tables)) frame_P9
     = Inr frame_P9 \<and>
   fst (load_data_from_csv iso_to_datetime ''purchase_order'' (Content frame_P9) [] []
          (run_on three_tables)) = Inl (IntegrityError ''FOREIGN KEY constraint failed'')"
proof -
  have p: "prepared iso_to_datetime ''purchase_order'' [] [] (db_file (run_on three_tables))
             frame_P9 = Inr frame_P9"
    by (simp add: prepared_def dedup_defs example_defs5)
  have r: "fst (replace_rows True ''purchase_order'' frame_P9 s1) =
             Inl (IntegrityError ''FOREIGN KEY constraint failed'')"
    if "db_file s1 = db_file (run_on three_tables)" for s1
    using that
    by (simp add: store_defs cell_def Let_def example_defs example_defs5 purchase_order_def_def
      product_def_def vendor_def_def stamps_def isoformat.simps digit_def)
  show ?thesis
    using connect_enables_foreign_keys [of "run_on three_tables" iso_to_datetime
        "''purchase_order''" "[]" "[]" frame_P9 frame_P9] p r
    by auto
qed

lemmas example_defs6 = no_extracts_def notes_def_def store_with_notes_def
  store_with_spaced_name_def

lemmas reader_defs = plain_names_def name_start_def name_char_def lower_def reserved_words_def

lemmas schema_defs = schema_def vendor_def_def warehouse_def_def product_def_def
  purchase_order_def_def inventory_def_def shipment_def_def demand_def_def stamps_def

subsection \<open>Recreating the schema\<close>

lemma map_of_drop_table:
  "reads t = Names t \<Longrightarrow>
     \<exists>db1. drop_table reads False t db = Inr db1 \<and> map_of db1 = (map_of db)(t := None)"
  by (cases "map_of db t")
     (simp_all add: drop_table_def delete_from_def delete_conv' update_conv' Let_def)

lemma drop_each_all:
  "\<forall>t \<in> set ns. reads t = Names t \<Longrightarrow>
     \<exists>db1. drop_each reads False ns db = (Inr (), db1) \<and>
           (\<forall>k. map_of db1 k = (if k \<in> set ns then None else map_of db k))"
proof (induction ns arbitrary: db)
  case Nil
  then show ?case by simp
next
  case (Cons t ns)
  from Cons.prems have "reads t = Names t" by simp
  from map_of_drop_table [of reads t db] this obtain db0 where
    d: "drop_table reads False t db = Inr db0" "map_of db0 = (map_of db)(t := None)" by blast
  from Cons.prems have "\<forall>t \<in> set ns. reads t = Names t" by simp
  from Cons.IH [OF this, of db0] obtain db1 where
    "drop_each reads False ns db0 = (Inr (), db1)"
    "\<forall>k. map_of db1 k = (if k \<in> set ns then None else map_of db0 k)" by blast
  then show ?case using d by auto
qed

lemma user_tables_iff:
  "k \<in> set (user_tables db) \<longleftrightarrow> map_of db k \<noteq> None \<and> \<not> like_sqlite k"
  by (auto simp: user_tables_def map_of_eq_None_iff)

lemma drop_all_tables_eq:
  "drop_all_tables reads s =
     (case drop_each reads False (user_tables (db_file s)) (db_file s) of
        (Inl e, db1) \<Rightarrow>
          (Inl e, \<lparr>db_file = db1,
                   handles = handles s @ [\<lparr>is_open = True, foreign_keys = False\<rparr>],
                   self_conn = Some (length (handles s)),
                   stdout = stdout s @ [Dropping]\<rparr>)
      | (Inr u, db1) \<Rightarrow>
          (Inr (), \<lparr>db_file = db1,
                    handles = handles s @ [\<lparr>is_open = True, foreign_keys = True\<rparr>],
                    self_conn = Some (length (handles s)),
                    stdout = stdout s @ [Dropping]\<rparr>))"
  by (simp add: drop_all_tables_def connect_eq pragma_foreign_keys_def say_def Let_def
      split: prod.splits sum.splits)

lemma drop_all_tables_readable:
  assumes "\<forall>t \<in> set (user_tables (db_file s)). reads t = Names t"
  shows "\<exists>s1. drop_all_tables reads s = (Inr (), s1) \<and>
              handles s1 = handles s @ [\<lparr>is_open = True, foreign_keys = True\<rparr>] \<and>
              (\<forall>k. map_of (db_file s1) k =
                     (if like_sqlite k then map_of (db_file s) k else None))"
proof -
  from drop_each_all [OF assms, of "db_file s"] obtain db1 where
    "drop_each reads False (user_tables (db_file s)) (db_file s) = (Inr (), db1)"
    "\<forall>k. map_of db1 k =
           (if k \<in> set (user_tables (db_file s)) then None else map_of (db_file s) k)"
    by blast
  then show ?thesis by (auto simp: drop_all_tables_eq user_tables_iff)
qed

lemma map_of_create_table:
  "map_of (create_table n d db) k =
     (case map_of db k of
        Some t \<Rightarrow> Some t
      | None \<Rightarrow> if k = n then Some \<lparr>tdef = d, trows = []\<rparr> else None)"
  by (cases "map_of db n") (auto simp: create_table_def map_add_def split: option.splits)

lemma map_of_fold_create:
  "map_of (fold (\<lambda>(n, d). create_table n d) sch db) k =
     (case map_of db k of
        Some t \<Rightarrow> Some t
      | None \<Rightarrow> map_option (\<lambda>d. \<lparr>tdef = d, trows = []\<rparr>) (map_of sch k))"
proof (induction sch arbitrary: db)
  case Nil
  then show ?case by (simp split: option.splits)
next
  case (Cons a sch)
  obtain n d where a: "a = (n, d)" by (cases a)
  show ?case
    using Cons.IH [of "create_table n d db"]
    by (simp add: a map_of_create_table split: option.splits)
qed

lemma fold_create_present:
  "\<forall>(n, d) \<in> set sch. map_of db n \<noteq> None \<Longrightarrow> fold (\<lambda>(n, d). create_table n d) sch db = db"
  by (induction sch arbitrary: db) (auto simp: create_table_def)

lemma db_file_create_tables:
  "db_file (create_tables s) = fold (\<lambda>(n, d). create_table n d) schema (db_file s)"
  by (simp add: create_tables_def connect_eq pragma_foreign_keys_def)

lemma schema_names: "distinct (map fst schema)" "\<forall>(n, d) \<in> set schema. \<not> like_sqlite n"
  by (simp_all add: schema_def)

lemma fresh_from_nothing: "fold (\<lambda>(n, d). create_table n d) schema [] = fresh_store"
  by (simp add: schema_def fresh_store_def create_table_def)

text \<open>
  What the recreation does achieve: when SQLite reads every enumerated name as the name of
  its table, every enumerated table is dropped with enforcement off, enforcement is on
  again afterwards, each of the seven tables then exists as declared with no rows, and
  creating the schema once more changes nothing. A store with no table is such a store.
\<close>

lemma recreate_schema_leaves_empty_tables:
  assumes "\<forall>t \<in> set (user_tables (db_file s)). reads t = Names t"
  shows "\<exists>s0 s1. drop_all_tables reads s = (Inr (), s0) \<and>
           (\<forall>n \<in> set (user_tables (db_file s)). map_of (db_file s0) n = None) \<and>
           handles s0 = handles s @ [\<lparr>is_open = True, foreign_keys = True\<rparr>] \<and>
           recreate_schema reads s = (Inr (), s1) \<and> s1 = create_tables s0 \<and>
           (\<forall>(n, d) \<in> set schema. map_of (db_file s1) n = Some \<lparr>tdef = d, trows = []\<rparr>) \<and>
           (db_file s = [] \<longrightarrow> db_file s1 = fresh_store) \<and>
           db_file (create_tables s1) = db_file s1"
proof -
  from drop_all_tables_readable [OF assms] obtain s0 where s0:
    "drop_all_tables reads s = (Inr (), s0)"
    "handles s0 = handles s @ [\<lparr>is_open = True, foreign_keys = True\<rparr>]"
    "\<forall>k. map_of (db_file s0) k = (if like_sqlite k then map_of (db_file s) k else None)"
    by blast
  let ?s1 = "create_tables s0"
  have r: "recreate_schema reads s = (Inr (), ?s1)"
    by (simp add: recreate_schema_def s0(1))
  have dropped: "\<forall>n \<in> set (user_tables (db_file s)). map_of (db_file s0) n = None"
    by (simp add: s0(3) user_tables_iff)
  have seven: "\<forall>(n, d) \<in> set schema. map_of (db_file ?s1) n = Some \<lparr>tdef = d, trows = []\<rparr>"
  proof (clarify)
    fix n d assume nd: "(n, d) \<in> set schema"
    then have "\<not> like_sqlite n" using schema_names(2) by auto
    then have "map_of (db_file s0) n = None" by (simp add: s0(3))
    moreover have "map_of schema n = Some d"
      using nd schema_names(1) by (simp add: map_of_is_SomeI)
    ultimately show "map_of (db_file ?s1) n = Some \<lparr>tdef = d, trows = []\<rparr>"
      by (simp add: db_file_create_tables map_of_fold_create)
  qed
  then have "\<forall>(n, d) \<in> set schema. map_of (db_file ?s1) n \<noteq> None" by auto
  then have again: "db_file (create_tables ?s1) = db_file ?s1"
    by (simp add: db_file_create_tables [of ?s1] fold_create_present)
  have empty: "db_file s = [] \<longrightarrow> db_file ?s1 = fresh_store"
  proof
    assume e: "db_file s = []"
    then have "drop_all_tables reads s =
        (Inr (), \<lparr>db_file = [], handles = handles s @ [\<lparr>is_open = True, foreign_keys = True\<rparr>],
                  self_conn = Some (length (handles s)), stdout = stdout s @ [Dropping]\<rparr>)"
      by (simp add: drop_all_tables_eq user_tables_def)
    with s0(1) have "db_file s0 = []" by auto
    then show "db_file ?s1 = fresh_store"
      by (simp add: db_file_create_tables fresh_from_nothing)
  qed
  show ?thesis using s0(1,2) r dropped seven empty again by blast
qed

lemma plain_names_examples:
  "user_tables store_with_notes = [''vendor'', ''notes''] \<and>
   plain_names ''vendor'' = Names ''vendor'' \<and> plain_names ''notes'' = Names ''notes'' \<and>
   plain_names ''my table'' = Rejected \<and> plain_names ''order'' = Rejected"
  by (simp add: user_tables_def store_with_notes_def reader_defs)

lemma db_file_verify_tables [simp]: "db_file (verify_tables s) = db_file s"
  by (simp add: verify_tables_def connect_eq Let_def)

lemma db_file_close [simp]: "db_file (close s) = db_file s"
  by (simp add: close_def split: option.splits)

subsection \<open>Connections at the end of a run\<close>

lemma load_each_no_extracts:
  "load_each to_dt no_extracts ls s =
     (Inr (), s\<lparr>stdout := stdout s @ map (\<lambda>(t, f, dcs, fks). WarnNotFound t) ls\<rparr>)"
proof (induction ls arbitrary: s)
  case Nil
  then show ?case by simp
next
  case (Cons a ls)
  obtain t f dcs fks where a: "a = (t, f, dcs, fks)" by (cases a)
  have "load_data_from_csv to_dt t (no_extracts f) dcs fks s =
          (Inr (), s\<lparr>stdout := stdout s @ [WarnNotFound t]\<rparr>)"
    by (simp add: no_extracts_def load_data_from_csv_def say_def)
  then show ?case by (simp add: a Cons.IH)
qed

lemma handles_main_no_extracts:
  "map is_open (handles (main to_dt reads no_extracts False db0)) = [True, False] \<and>
   map is_open (handles (main to_dt reads no_extracts True [])) = [True, True, False]"
  by (simp add: main_def load_each_no_extracts close_def say_def handles_create_tables
      handles_verify_tables recreate_schema_def drop_all_tables_eq user_tables_def
      create_tables_def verify_tables_def connect_eq pragma_foreign_keys_def Let_def
      split: prod.splits)

text \<open>
  Claim C6 at a concrete run: the store is new and no extract is present. Without
  recreation two connections are acquired (by schema creation and by verification), with
  recreation three; \<^verbatim>\<open>close\<close> closes the last one only, and the others are still open
  when \<^verbatim>\<open>main\<close> returns.
\<close>

theorem main_leaves_connections_open:
  "map is_open (handles (main iso_to_datetime plain_names no_extracts False [])) = [True, False] \<and>
   map is_open (handles (main iso_to_datetime plain_names no_extracts True []))
     = [True, True, False]"
  by (rule handles_main_no_extracts)

subsection \<open>Tables that the recreation misses\<close>

lemma main_recreate_no_extracts:
  "db_file (main to_dt reads no_extracts True db0) =
     (case recreate_schema reads (run_on db0) of (r, s) \<Rightarrow> db_file s)"
  by (simp add: main_def run_on_def load_each_no_extracts say_def Let_def
      split: prod.splits sum.splits)

text \<open>
  Claim C7 at two concrete runs of \<^verbatim>\<open>main\<close> with recreation, no extract being present.
  In the first the store holds the user tables \<^verbatim>\<open>vendor\<close>, \<^verbatim>\<open>notes\<close> and
  \<^verbatim>\<open>sqlite2\<close>: the pattern of the enumeration matches \<^verbatim>\<open>sqlite2\<close>, which is
  neither enumerated nor dropped and keeps its row. In the second the store holds
  \<^verbatim>\<open>my table\<close> and \<^verbatim>\<open>vendor\<close>: the drop statement built from the first name raises,
  \<^verbatim>\<open>create_tables\<close> is not reached, \<^verbatim>\<open>vendor\<close> keeps its row and
  \<^verbatim>\<open>product\<close> does not exist.
\<close>

theorem recreate_misses_tables:
  "table_rows (db_file (main iso_to_datetime plain_names no_extracts True store_with_notes))
     ''sqlite2'' = Some [[(''text'', TextV ''n2'')]] \<and>
   table_rows (db_file (main iso_to_datetime plain_names no_extracts True store_with_notes))
     ''notes'' = None \<and>
   table_rows (db_file (main iso_to_datetime plain_names no_extracts True store_with_notes))
     ''vendor'' = Some [] \<and>
   table_rows
     (db_file (main iso_to_datetime plain_names no_extracts True store_with_spaced_name))
     ''vendor'' = Some [vendor_V1] \<and>
   table_rows
     (db_file (main iso_to_datetime plain_names no_extracts True store_with_spaced_name))
     ''product'' = None"
proof -
  have readable: "\<forall>t \<in> set (user_tables (db_file (run_on store_with_notes))).
                    plain_names t = Names t"
    by (simp add: run_on_def user_tables_def store_with_notes_def reader_defs)
  from recreate_schema_leaves_empty_tables [OF readable] obtain s0 s1 where s:
    "drop_all_tables plain_names (run_on store_with_notes) = (Inr (), s0)"
    "recreate_schema plain_names (run_on store_with_notes) = (Inr (), s1)"
    "s1 = create_tables s0"
    "\<forall>(n, d) \<in> set schema. map_of (db_file s1) n = Some \<lparr>tdef = d, trows = []\<rparr>"
    by blast
  from drop_all_tables_readable [OF readable] s(1)
  have d: "\<forall>k. map_of (db_file s0) k =
                (if like_sqlite k then map_of (db_file (run_on store_with_notes)) k else None)"
    by auto
  have v: "map_of (db_file s1) ''vendor'' = Some \<lparr>tdef = vendor_def, trows = []\<rparr>"
    using s(4) by (auto simp: schema_def)
  have other: "map_of schema ''notes'' = None" "map_of schema ''sqlite2'' = None"
    by (simp_all add: schema_def)
  have n: "map_of (db_file s1) ''notes'' = None"
    by (simp add: s(3) db_file_create_tables map_of_fold_create d other)
  have q: "map_of (db_file s1) ''sqlite2'' = map_of store_with_notes ''sqlite2''"
    by (simp add: s(3) db_file_create_tables map_of_fold_create d other run_on_def
        split: option.splits)
  have first: "db_file (main iso_to_datetime plain_names no_extracts True store_with_notes)
                 = db_file s1"
    by (simp add: main_recreate_no_extracts s(2))
  have "drop_each plain_names False (user_tables store_with_spaced_name) store_with_spaced_name
          = (Inl (OperationalError ''syntax error''), store_with_spaced_name)"
    by (simp add: user_tables_def store_with_spaced_name_def drop_table_def reader_defs)
  then have second:
    "db_file (main iso_to_datetime plain_names no_extracts True store_with_spaced_name)
       = store_with_spaced_name"
    by (simp add: main_recreate_no_extracts recreate_schema_def drop_all_tables_eq run_on_def)
  show ?thesis
    unfolding first second
    by (simp add: table_rows_def v n q) (simp add: store_with_notes_def store_with_spaced_name_def)
qed

end
